theory Spec2Isabelle
  imports Complex_Main "HOL-Library.Log_Nat"
begin

section \<open>The GWAS notebook (2\_GWAS.ipynb) as functions\<close>

text \<open>
  The notebook is a straight-line script. Each code cell becomes one function from the
  variables it reads to the variables it assigns; the names are the notebook's.
  Conventions of the embedding:
  \<^item> a Python exception is a value \<open>Inl e\<close> of a sum type, a normal result is \<open>Inr v\<close>;
  \<^item> a two-dimensional numpy array carries its shape with its rows, so that an array
    with no row still has a number of columns;
  \<^item> a finite float is the rational number it stands for, and a division of integers
    gives the nearest such number (round to nearest, ties to even, 53 bits); NaN and the
    infinities are values of their own;
  \<^item> reading an HDF5 dataset with an index list raises TypeError unless the list is
    strictly increasing, which is why the notebook sorts every index list before such a
    read; indexing a numpy array has no such condition;
  \<^item> the accession identifiers are compared for equality only, so their type is a
    type variable;
  \<^item> \<open>limix.qtl.scan\<close> is not part of the notebook. It is modelled from the contract
    the specification gives it, with the statistics it computes as a parameter.
\<close>

subsection \<open>Values\<close>

datatype error = KeyError | IndexError | TypeError | ScanError

text \<open>A binary64 value is a NaN, an infinity, or a rational with a 53-bit significand.
  \<open>float64 q\<close> is the finite binary64 value nearest to \<open>q\<close>, ties going to the even
  significand. Quotients of 64-bit integers stay within the normal range, so overflow
  and subnormal numbers do not occur here.\<close>

datatype npfloat = Fl rat | NaN | PosInf | NegInf

definition round_half_even :: "rat \<Rightarrow> int" where
  "round_half_even x =
     (let f = \<lfloor>x\<rfloor>; d = x - of_int f
      in if d < 1 / 2 then f else if 1 / 2 < d then f + 1 else if even f then f else f + 1)"

text \<open>The exponent \<open>e\<close> with \<open>2 ^ e \<le> |q| < 2 ^ (e + 1)\<close>, for \<open>q \<noteq> 0\<close>.\<close>

definition binade :: "rat \<Rightarrow> int" where
  "binade q =
     (let (a, b) = quotient_of \<bar>q\<bar>; d = bitlen a - bitlen b
      in if 2 powi d \<le> \<bar>q\<bar> then d else d - 1)"

definition float64 :: "rat \<Rightarrow> rat" where
  "float64 q =
     (if q = 0 then 0
      else (let ulp = 2 powi (binade q - 52) in of_int (round_half_even (q / ulp)) * ulp))"

text \<open>What \<open>pandas.read_csv\<close> finds in a cell of the phenotype column: a number, a
  missing value (an empty cell or one of the markers for it), or text that is neither.\<close>

datatype trait = Num rat | NA | Text string

datatype 'a array2 = Array2 (shape0: nat) (shape1: nat) (data: "'a list list")

definition well_shaped :: "'a array2 \<Rightarrow> bool" where
  "well_shaped A =
     (length (data A) = shape0 A \<and> list_all (\<lambda>r. length r = shape1 A) (data A))"

text \<open>\<open>A[i][j]\<close>\<close>

definition entry :: "'a array2 \<Rightarrow> nat \<Rightarrow> nat \<Rightarrow> 'a" where
  "entry A i j = data A ! i ! j"

text \<open>\<open>xs[idx]\<close> on a numpy array, with an index list: IndexError when an index is out of
  range.\<close>

definition take_idx :: "'a list \<Rightarrow> nat list \<Rightarrow> error + 'a list" where
  "take_idx xs idx =
     (if list_all (\<lambda>i. i < length xs) idx then Inr (map (\<lambda>i. xs ! i) idx)
      else Inl IndexError)"

text \<open>\<open>A[idx, :]\<close> on a numpy array\<close>

definition take_rows :: "'a array2 \<Rightarrow> nat list \<Rightarrow> error + 'a array2" where
  "take_rows A idx =
     (if list_all (\<lambda>i. i < shape0 A) idx
      then Inr (Array2 (length idx) (shape1 A) (map (\<lambda>i. data A ! i) idx))
      else Inl IndexError)"

text \<open>\<open>A[:, idx]\<close> on a numpy array\<close>

definition take_cols :: "'a array2 \<Rightarrow> nat list \<Rightarrow> error + 'a array2" where
  "take_cols A idx =
     (if list_all (\<lambda>j. j < shape1 A) idx
      then Inr (Array2 (shape0 A) (length idx) (map (\<lambda>r. map (\<lambda>j. r ! j) idx) (data A)))
      else Inl IndexError)"

text \<open>The same three reads on an HDF5 dataset: h5py takes an index list only in
  increasing order without repetition and raises TypeError otherwise.\<close>

definition h5_take_idx :: "'a list \<Rightarrow> nat list \<Rightarrow> error + 'a list" where
  "h5_take_idx xs idx = (if sorted_wrt (<) idx then take_idx xs idx else Inl TypeError)"

definition h5_take_rows :: "'a array2 \<Rightarrow> nat list \<Rightarrow> error + 'a array2" where
  "h5_take_rows A idx = (if sorted_wrt (<) idx then take_rows A idx else Inl TypeError)"

definition h5_take_cols :: "'a array2 \<Rightarrow> nat list \<Rightarrow> error + 'a array2" where
  "h5_take_cols A idx = (if sorted_wrt (<) idx then take_cols A idx else Inl TypeError)"

text \<open>\<open>A.transpose()\<close>\<close>

definition transpose_array :: "'a array2 \<Rightarrow> 'a array2" where
  "transpose_array A =
     Array2 (shape1 A) (shape0 A) (map (\<lambda>j. map (\<lambda>r. r ! j) (data A)) [0..<shape1 A])"

text \<open>A list comprehension whose element expression may raise: the first exception
  ends it.\<close>

fun collect :: "('e + 'b) list \<Rightarrow> 'e + 'b list" where
  "collect [] = Inr []"
| "collect (r # rs) =
     (case r of
        Inl e \<Rightarrow> Inl e
      | Inr x \<Rightarrow> (case collect rs of Inl e \<Rightarrow> Inl e | Inr xs \<Rightarrow> Inr (x # xs)))"

subsection \<open>Cell 2a: the phenotype table\<close>

text \<open>A data frame with one value column: the rows in order, each with its index label.
  \<open>pheno.dropna()\<close> removes the rows that hold a missing value.\<close>

definition dropna :: "('a \<times> trait) list \<Rightarrow> ('a \<times> trait) list" where
  "dropna pheno = filter (\<lambda>row. snd row \<noteq> NA) pheno"

text \<open>\<open>df.loc[labels]\<close>: for each label in turn the rows that carry it; KeyError when a
  label is not in the index.\<close>

definition loc :: "('a \<times> 'v) list \<Rightarrow> 'a list \<Rightarrow> error + ('a \<times> 'v) list" where
  "loc df labels =
     (if list_all (\<lambda>l. l \<in> set (map fst df)) labels
      then Inr (concat (map (\<lambda>l. filter (\<lambda>row. fst row = l) df) labels))
      else Inl KeyError)"

text \<open>\<open>df.to_numpy()\<close>: one row per table row, one column.\<close>

definition to_numpy :: "('a \<times> 'v) list \<Rightarrow> 'v array2" where
  "to_numpy df = Array2 (length df) 1 (map (\<lambda>row. [snd row]) df)"

subsection \<open>Cell 3a: the phenotype matrix Y\<close>

definition acn_genotyped :: "('a \<times> 'v) list \<Rightarrow> 'a list \<Rightarrow> 'a list" where
  "acn_genotyped pheno accessions = filter (\<lambda>acn. acn \<in> set accessions) (map fst pheno)"

text \<open>\<open>np.where(arr == acn)[0][0]\<close>: the first position of \<open>acn\<close>; IndexError when
  there is none.\<close>

fun first_index :: "'a list \<Rightarrow> 'a \<Rightarrow> nat option" where
  "first_index [] acn = None"
| "first_index (x # xs) acn =
     (if x = acn then Some 0 else map_option Suc (first_index xs acn))"

definition where_first :: "'a list \<Rightarrow> 'a \<Rightarrow> error + nat" where
  "where_first arr acn =
     (case first_index arr acn of None \<Rightarrow> Inl IndexError | Some i \<Rightarrow> Inr i)"

text \<open>The comprehension over \<open>pheno.index\<close> followed by \<open>acn_indices.sort()\<close>.\<close>

definition acn_indices :: "'a list \<Rightarrow> 'a list \<Rightarrow> error + nat list" where
  "acn_indices accessions index =
     (case collect (map (where_first accessions) index) of
        Inl e \<Rightarrow> Inl e
      | Inr idx \<Rightarrow> Inr (sort idx))"

record 'a cell_3a_vars =
  geno_indices :: "nat list"
  acn_order :: "'a list"
  pheno_aligned :: "('a \<times> trait) list"
  Y_matrix :: "trait array2"

definition cell_3a :: "('a \<times> trait) list \<Rightarrow> 'a list \<Rightarrow> error + 'a cell_3a_vars" where
  "cell_3a pheno accessions =
     (case loc pheno (acn_genotyped pheno accessions) of
        Inl e \<Rightarrow> Inl e
      | Inr pheno1 \<Rightarrow>
     (case acn_indices accessions (map fst pheno1) of
        Inl e \<Rightarrow> Inl e
      | Inr idx \<Rightarrow>
     (case h5_take_idx accessions idx of
        Inl e \<Rightarrow> Inl e
      | Inr order \<Rightarrow>
     (case loc pheno1 order of
        Inl e \<Rightarrow> Inl e
      | Inr pheno2 \<Rightarrow>
          Inr \<lparr>geno_indices = idx, acn_order = order, pheno_aligned = pheno2,
               Y_matrix = to_numpy pheno2\<rparr>))))"

subsection \<open>Cell 3b: the genotype matrix G and the allele frequencies\<close>

definition AC1 :: "int array2 \<Rightarrow> int list" where
  "AC1 G = map sum_list (data G)"

definition AC0 :: "int array2 \<Rightarrow> int list" where
  "AC0 G = map (\<lambda>ac1. int (shape1 G) - ac1) (AC1 G)"

definition MAC :: "int array2 \<Rightarrow> int list" where
  "MAC G = map (\<lambda>(ac0, ac1). min ac0 ac1) (zip (AC0 G) (AC1 G))"

text \<open>numpy's division of an integer by an integer: both are converted to binary64 and
  the quotient is rounded; a zero divisor gives a special value and a warning, not an
  exception.\<close>

definition true_divide :: "int \<Rightarrow> nat \<Rightarrow> npfloat" where
  "true_divide a n =
     (if n = 0 then (if a = 0 then NaN else if 0 < a then PosInf else NegInf)
      else Fl (float64 (float64 (of_int a) / float64 (of_nat n))))"

definition MAF :: "int array2 \<Rightarrow> npfloat list" where
  "MAF G = map (\<lambda>mac. true_divide mac (shape1 G)) (MAC G)"

text \<open>\<open>x >= thr\<close> for a finite threshold: false for NaN.\<close>

fun np_ge :: "npfloat \<Rightarrow> rat \<Rightarrow> bool" where
  "np_ge (Fl q) thr = (thr \<le> q)"
| "np_ge NaN thr = False"
| "np_ge PosInf thr = True"
| "np_ge NegInf thr = False"

text \<open>The literal \<open>0.05\<close>\<close>

definition MAF_thrs :: rat where
  "MAF_thrs = float64 (5 / 100)"

text \<open>\<open>np.where(MAF >= MAF_thrs)[0]\<close>\<close>

definition SNP_indices :: "int array2 \<Rightarrow> rat \<Rightarrow> nat list" where
  "SNP_indices G thr = filter (\<lambda>i. np_ge (MAF G ! i) thr) [0..<length (MAF G)]"

definition SNPs_MAF :: "int array2 \<Rightarrow> rat \<Rightarrow> npfloat list" where
  "SNPs_MAF G thr = map (\<lambda>i. MAF G ! i) (SNP_indices G thr)"

record cell_3b_vars =
  G_matrix :: "int array2"
  snp_indices :: "nat list"
  snps_maf :: "npfloat list"

text \<open>The first cell of section 3b reads \<open>geno_hdf['snps'][:, acn_indices]\<close>
  (\<^const>\<open>h5_take_cols\<close>); the second one computes the frequencies and filters.\<close>

definition cell_3b :: "int array2 \<Rightarrow> rat \<Rightarrow> error + cell_3b_vars" where
  "cell_3b G thr =
     (case take_rows G (SNP_indices G thr) of
        Inl e \<Rightarrow> Inl e
      | Inr G' \<Rightarrow>
          Inr \<lparr>G_matrix = transpose_array G', snp_indices = SNP_indices G thr,
               snps_maf = SNPs_MAF G thr\<rparr>)"

subsection \<open>Cell 3c: the kinship matrix K\<close>

text \<open>\<open>kin_hdf['kinship'][acn_indices, :][:, acn_indices]\<close>: the first read is on the
  HDF5 dataset, the second on the array it returned.\<close>

definition subset_kinship :: "'k array2 \<Rightarrow> nat list \<Rightarrow> error + 'k array2" where
  "subset_kinship kinship idx =
     (case h5_take_rows kinship idx of
        Inl e \<Rightarrow> Inl e
      | Inr rows \<Rightarrow> take_cols rows idx)"

record 'k cell_3c_vars =
  kin_indices :: "nat list"
  K_matrix :: "'k array2"

definition cell_3c ::
  "('a \<times> trait) list \<Rightarrow> 'a list \<Rightarrow> 'k array2 \<Rightarrow> error + 'k cell_3c_vars" where
  "cell_3c pheno accessions kinship =
     (case acn_indices accessions (map fst pheno) of
        Inl e \<Rightarrow> Inl e
      | Inr idx \<Rightarrow>
     (case subset_kinship kinship idx of
        Inl e \<Rightarrow> Inl e
      | Inr K \<Rightarrow> Inr \<lparr>kin_indices = idx, K_matrix = K\<rparr>))"

subsection \<open>Cells 5b and 5d: the result tables\<close>

text \<open>\<open>bisect.bisect\<close> (that is \<open>bisect_right\<close>) of the standard library: a binary
  search for the insertion point to the right of equal elements.\<close>

function bisect_loop :: "int list \<Rightarrow> int \<Rightarrow> nat \<Rightarrow> nat \<Rightarrow> nat" where
  "bisect_loop a x lo hi =
     (if lo < hi
      then (let mid = (lo + hi) div 2
            in if x < a ! mid then bisect_loop a x lo mid else bisect_loop a x (mid + 1) hi)
      else lo)"
  by pat_completeness auto
termination
  by (relation "measure (\<lambda>(a, x, lo, hi). hi - lo)") auto

declare bisect_loop.simps [simp del]

definition bisect :: "int list \<Rightarrow> int \<Rightarrow> nat" where
  "bisect a x = bisect_loop a x 0 (length a)"

text \<open>\<open>bisect(chr_index[:, 1], snp_index) + 1\<close>\<close>

definition chromosome :: "(int \<times> int) list \<Rightarrow> nat \<Rightarrow> nat" where
  "chromosome chr_index snp_index = bisect (map snd chr_index) (int snp_index) + 1"

definition chromosomes :: "(int \<times> int) list \<Rightarrow> nat list \<Rightarrow> nat list" where
  "chromosomes chr_index snp_idx = map (chromosome chr_index) snp_idx"

datatype cell = IntCell int | FloatCell npfloat | StrCell string

record dataframe =
  columns :: "string list"
  records :: "cell list list"

text \<open>\<open>list(zip(chromosomes, positions, pvalues, mafs, effsizes))\<close>: as long as the
  shortest of the five lists.\<close>

fun zip5 ::
  "nat list \<Rightarrow> int list \<Rightarrow> npfloat list \<Rightarrow> npfloat list \<Rightarrow> npfloat list \<Rightarrow> cell list list"
where
  "zip5 (c # cs) (p # ps) (v # vs) (m # ms) (e # es) =
     [IntCell (int c), IntCell p, FloatCell v, FloatCell m, FloatCell e] # zip5 cs ps vs ms es"
| "zip5 cs ps vs ms es = []"

text \<open>\<open>df.to_csv(path, index = ...)\<close>: the header line, then one line per record; with
  \<open>index = True\<close> every line starts with the row label.\<close>

definition to_csv :: "dataframe \<Rightarrow> bool \<Rightarrow> cell list list" where
  "to_csv df index =
     (if index
      then (StrCell [] # map StrCell (columns df)) #
           map (\<lambda>(i, r). IntCell (int i) # r) (zip [0..<length (records df)] (records df))
      else map StrCell (columns df) # records df)"

text \<open>What a scan returns: \<open>r.stats.pv20\<close> and the candidate effect sizes.\<close>

type_synonym scan_result = "npfloat list \<times> npfloat list"

definition save_results ::
  "(int \<times> int) list \<Rightarrow> int list \<Rightarrow> nat list \<Rightarrow> npfloat list \<Rightarrow> scan_result \<Rightarrow>
   error + cell list list" where
  "save_results chr_index positions_all snp_idx maf r =
     (let chrs = chromosomes chr_index snp_idx in
      case take_idx positions_all snp_idx of
        Inl e \<Rightarrow> Inl e
      | Inr positions \<Rightarrow>
          (let mafs = maf; pvalues = fst r; effsizes = snd r;
               gwas_results = \<lparr>columns = [''chr'', ''pos'', ''pvalue'', ''maf'', ''GVE''],
                                records = zip5 chrs positions pvalues mafs effsizes\<rparr>
           in Inr (to_csv gwas_results False)))"

definition save_results_nc ::
  "(int \<times> int) list \<Rightarrow> int list \<Rightarrow> nat list \<Rightarrow> npfloat list \<Rightarrow> scan_result \<Rightarrow>
   error + cell list list" where
  "save_results_nc chr_index positions_all snp_idx maf r_nc =
     (let chrs = chromosomes chr_index snp_idx in
      case take_idx positions_all snp_idx of
        Inl e \<Rightarrow> Inl e
      | Inr positions \<Rightarrow>
          (let mafs = maf; pvalues = fst r_nc; effsizes = snd r_nc;
               gwas_results = \<lparr>columns = [''chr'', ''pos'', ''pvalue'', ''maf'', ''GVE''],
                                records = zip5 chrs positions pvalues mafs effsizes\<rparr>
           in Inr (to_csv gwas_results False)))"

subsection \<open>The whole notebook\<close>

record ('a, 'k) sources =
  pheno_table :: "('a \<times> trait) list"
  geno_accessions :: "'a list"
  geno_positions :: "int list"
  geno_chr_regions :: "(int \<times> int) list"
  geno_snps :: "int array2"
  kin_accessions :: "'a list"
  kin_kinship :: "'k array2"

record ('a, 'k) matrices =
  m_order :: "'a list"
  m_geno_indices :: "nat list"
  m_kin_indices :: "nat list"
  m_Y :: "trait array2"
  m_G :: "int array2"
  m_K :: "'k array2"
  m_SNP_indices :: "nat list"
  m_SNPs_MAF :: "npfloat list"

text \<open>Sections 2 and 3: everything up to the first call of \<open>scan\<close>.\<close>

definition prepare :: "rat \<Rightarrow> ('a, 'k) sources \<Rightarrow> error + ('a, 'k) matrices" where
  "prepare thr src =
     (case cell_3a (dropna (pheno_table src)) (geno_accessions src) of
        Inl e \<Rightarrow> Inl e
      | Inr a \<Rightarrow>
     (case h5_take_cols (geno_snps src) (geno_indices a) of
        Inl e \<Rightarrow> Inl e
      | Inr G \<Rightarrow>
     (case cell_3b G thr of
        Inl e \<Rightarrow> Inl e
      | Inr b \<Rightarrow>
     (case cell_3c (pheno_aligned a) (kin_accessions src) (kin_kinship src) of
        Inl e \<Rightarrow> Inl e
      | Inr c \<Rightarrow>
          Inr \<lparr>m_order = acn_order a, m_geno_indices = geno_indices a,
               m_kin_indices = kin_indices c, m_Y = Y_matrix a, m_G = G_matrix b,
               m_K = K_matrix c, m_SNP_indices = snp_indices b,
               m_SNPs_MAF = snps_maf b\<rparr>))))"

definition output_file :: string where
  "output_file = ''./results/subset_flowering_time_16_gwas.csv''"

definition output_file_nc :: string where
  "output_file_nc = ''./results/subset_flowering_time_16_gwas_nc.csv''"

text \<open>Modelled from the spec: \<open>limix.qtl.scan\<close> is not in the repository. The
  specification gives its contract: it cannot run on an empty genotype matrix (section 7);
  its other failures are surfaced as they are; and when it returns it gives, for each of
  the M columns of G, one p-value and one effect size (section 4.3). The statistics are a
  parameter \<open>stats\<close>: for G, Y and the optional K either a failure or the pair of
  p-value and effect size of each column.\<close>

type_synonym 'k stats =
  "int array2 \<Rightarrow> trait array2 \<Rightarrow> 'k array2 option \<Rightarrow> error + (nat \<Rightarrow> npfloat \<times> npfloat)"

definition scan ::
  "'k stats \<Rightarrow> int array2 \<Rightarrow> trait array2 \<Rightarrow> 'k array2 option \<Rightarrow> error + scan_result" where
  "scan stats G Y K =
     (if shape0 G = 0 \<or> shape1 G = 0 then Inl ScanError
      else (case stats G Y K of
              Inl e \<Rightarrow> Inl e
            | Inr f \<Rightarrow>
                Inr (map (\<lambda>j. fst (f j)) [0..<shape1 G], map (\<lambda>j. snd (f j)) [0..<shape1 G])))"

text \<open>A run of the notebook: the files written, in order, and the exception that ended
  the run, if one did. The cells run in order, so a file written by cell 5b stays when
  a later cell raises.\<close>

definition run_gwas ::
  "'k stats \<Rightarrow> rat \<Rightarrow> ('a, 'k) sources \<Rightarrow> (string \<times> cell list list) list \<times> error option" where
  "run_gwas stats thr src =
     (case prepare thr src of
        Inl e \<Rightarrow> ([], Some e)
      | Inr m \<Rightarrow>
     (case scan stats (m_G m) (m_Y m) (Some (m_K m)) of
        Inl e \<Rightarrow> ([], Some e)
      | Inr r \<Rightarrow>
     (case save_results (geno_chr_regions src) (geno_positions src)
             (m_SNP_indices m) (m_SNPs_MAF m) r of
        Inl e \<Rightarrow> ([], Some e)
      | Inr csv \<Rightarrow>
     (case scan stats (m_G m) (m_Y m) None of
        Inl e \<Rightarrow> ([(output_file, csv)], Some e)
      | Inr r_nc \<Rightarrow>
     (case save_results_nc (geno_chr_regions src) (geno_positions src)
             (m_SNP_indices m) (m_SNPs_MAF m) r_nc of
        Inl e \<Rightarrow> ([(output_file, csv)], Some e)
      | Inr csv_nc \<Rightarrow> ([(output_file, csv), (output_file_nc, csv_nc)], None))))))"

section \<open>Inputs used in examples, and the specification's own formulations\<close>

text \<open>The boundary table of the specification's bucketing example.\<close>

definition example_chr_regions :: "(int \<times> int) list" where
  "example_chr_regions = [(0, 10), (10, 25), (25, 40)]"

text \<open>The bucket search in the words of the specification: the smallest 1-indexed
  chromosome \<open>c\<close> such that the SNP index is at most the upper end of \<open>c\<close>.\<close>

definition bucket_le :: "(int \<times> int) list \<Rightarrow> nat \<Rightarrow> nat" where
  "bucket_le chr_index snp_index =
     Suc (length (takeWhile (\<lambda>b. b < int snp_index) (map snd chr_index)))"

text \<open>A symmetric kinship array over three accessions.\<close>

definition example_kinship :: "rat array2" where
  "example_kinship = Array2 3 3 [[1, 2, 3], [2, 4, 5], [3, 5, 6]]"

text \<open>The position of an accession in a list that holds it.\<close>

definition index_of :: "'a list \<Rightarrow> 'a \<Rightarrow> nat" where
  "index_of xs a = the (first_index xs a)"

text \<open>The number of calls of the alternative allele in a SNP row, and the minor allele
  frequency in the words of the specification: \<open>min(k, N - k) / N\<close> for \<open>k\<close> ones among
  \<open>N\<close> accessions, the quotient being a float, so the binary64 value nearest to it.\<close>

definition ones :: "int list \<Rightarrow> nat" where
  "ones calls = count_list calls 1"

definition maf_spec :: "nat \<Rightarrow> nat \<Rightarrow> rat" where
  "maf_spec k N = float64 (of_nat (min k (N - k)) / of_nat N)"

text \<open>Seven SNPs over forty accessions, with 0, 40, 1, 2, 39, 38 and 20 ones: the
  frequencies are 0, 0, 0.025, 0.05, 0.025, 0.05 and 0.5.\<close>

definition example_G :: "int array2" where
  "example_G =
     Array2 7 40
       [replicate 40 0, replicate 40 1, replicate 39 0 @ [1], replicate 38 0 @ [1, 1],
        0 # replicate 39 1, [0, 0] @ replicate 38 1, replicate 20 0 @ replicate 20 1]"

text \<open>The specification's end-to-end scenario: phenotyped accessions A, B, C, D (here
  listed in another order) and genotyped accessions B, C, D, E.\<close>

definition example_pheno :: "(string \<times> trait) list" where
  "example_pheno = [(''D'', Num 4), (''A'', Num 1), (''C'', Num 3), (''B'', Num 2)]"

definition example_accessions :: "string list" where
  "example_accessions = [''B'', ''C'', ''D'', ''E'']"

text \<open>The column names as the specification lists them.\<close>

definition spec_columns :: "string list" where
  "spec_columns = [''chr'', ''pos'', ''pvalue'', ''maf'', ''effect_size'']"

text \<open>Reading columns of a written table back by position: 0, 1 and 3 are chr, pos
  and maf.\<close>

definition csv_columns :: "nat list \<Rightarrow> cell list list \<Rightarrow> cell list list" where
  "csv_columns js csv = map (\<lambda>line. map (\<lambda>j. line ! j) js) csv"

text \<open>Positions of four SNPs and the results of two scans over two retained SNPs.\<close>

definition example_positions :: "int list" where
  "example_positions = [100, 200, 300, 400]"

definition example_r :: scan_result where
  "example_r = ([Fl (1 / 2), Fl (1 / 4)], [Fl 2, Fl (- 1)])"

definition example_r_nc :: scan_result where
  "example_r_nc = ([Fl (1 / 8), Fl (1 / 16)], [Fl 3, Fl (- 2)])"

text \<open>Statistics that never fail: one pair of values for the scan with K, another for
  the scan without.\<close>

definition example_stats :: "rat stats" where
  "example_stats G Y K =
     Inr (\<lambda>j. case K of Some k \<Rightarrow> (Fl (1 / 2), Fl 2) | None \<Rightarrow> (Fl (1 / 8), Fl 3))"


text \<open>Sources whose two SNPs are monomorphic among the aligned accessions.\<close>

definition monomorphic_sources :: "(string, rat) sources" where
  "monomorphic_sources =
     \<lparr>pheno_table = [(''A'', Num 1), (''B'', Num 2)],
      geno_accessions = [''A'', ''B''],
      geno_positions = [100, 200],
      geno_chr_regions = [(0, 2)],
      geno_snps = Array2 2 2 [[0, 0], [1, 1]],
      kin_accessions = [''A'', ''B''],
      kin_kinship = Array2 2 2 [[1, 1 / 2], [1 / 2, 1]]\<rparr>"

text \<open>Sources whose kinship file lists the accessions in another order than the
  genotype file; the kinship of B with B is 10, that of A with A is 20.\<close>

definition swapped_sources :: "(string, rat) sources" where
  "swapped_sources =
     \<lparr>pheno_table = [(''A'', Num 1), (''B'', Num 2)],
      geno_accessions = [''A'', ''B''],
      geno_positions = [100],
      geno_chr_regions = [(0, 1)],
      geno_snps = Array2 1 2 [[0, 1]],
      kin_accessions = [''B'', ''A''],
      kin_kinship = Array2 2 2 [[10, 5], [5, 20]]\<rparr>"

text \<open>Sources in the shape of the specification's end-to-end scenario, with one missing
  phenotype value and a kinship file that covers every accession.\<close>

definition example_sources :: "(string, rat) sources" where
  "example_sources =
     \<lparr>pheno_table = [(''D'', Num 4), (''A'', Num 1), (''C'', NA), (''B'', Num 2)],
      geno_accessions = [''B'', ''C'', ''D'', ''E''],
      geno_positions = [100, 200],
      geno_chr_regions = [(0, 2)],
      geno_snps = Array2 2 4 [[0, 1, 1, 0], [1, 0, 1, 1]],
      kin_accessions = [''A'', ''B'', ''C'', ''D'', ''E''],
      kin_kinship = Array2 5 5 [[1, 2, 3, 4, 5], [2, 6, 7, 8, 9], [3, 7, 10, 11, 12],
                                [4, 8, 11, 13, 14], [5, 9, 12, 14, 15]]\<rparr>"

section \<open>Properties\<close>

subsection \<open>Binary search\<close>

lemma bisect_loop_spec:
  "sorted a \<Longrightarrow> lo \<le> hi \<Longrightarrow> hi \<le> length a \<Longrightarrow> (\<forall>i<lo. a ! i \<le> x) \<Longrightarrow>
     (\<forall>i. hi \<le> i \<and> i < length a \<longrightarrow> x < a ! i) \<Longrightarrow>
     lo \<le> bisect_loop a x lo hi \<and> bisect_loop a x lo hi \<le> hi \<and>
     (\<forall>i<bisect_loop a x lo hi. a ! i \<le> x) \<and>
     (\<forall>i. bisect_loop a x lo hi \<le> i \<and> i < length a \<longrightarrow> x < a ! i)"
proof (induction a x lo hi rule: bisect_loop.induct)
  case (1 a x lo hi)
  note srt = \<open>sorted a\<close>
  show ?case
  proof (cases "lo < hi")
    case False
    then have "bisect_loop a x lo hi = lo" by (simp add: bisect_loop.simps[of a x lo hi])
    moreover from False "1.prems" have "lo = hi" by simp
    ultimately show ?thesis using "1.prems" by simp
  next
    case True
    define mid where "mid = (lo + hi) div 2"
    have mid: "lo \<le> mid" "mid < hi" using True by (auto simp: mid_def)
    show ?thesis
    proof (cases "x < a ! mid")
      case lt: True
      have up: "\<forall>i. mid \<le> i \<and> i < length a \<longrightarrow> x < a ! i"
      proof (intro allI impI)
        fix i assume "mid \<le> i \<and> i < length a"
        then have "a ! mid \<le> a ! i" using srt by (simp add: sorted_iff_nth_mono)
        with lt show "x < a ! i" by simp
      qed
      have eq: "bisect_loop a x lo hi = bisect_loop a x lo mid"
        using True lt by (simp add: bisect_loop.simps[of a x lo hi] mid_def)
      have "lo \<le> bisect_loop a x lo mid \<and> bisect_loop a x lo mid \<le> mid \<and>
        (\<forall>i<bisect_loop a x lo mid. a ! i \<le> x) \<and>
        (\<forall>i. bisect_loop a x lo mid \<le> i \<and> i < length a \<longrightarrow> x < a ! i)"
        using "1.IH"(1)[OF True mid_def lt srt] mid "1.prems" up by simp
      with eq mid show ?thesis by simp
    next
      case ge: False
      have low: "\<forall>i<mid + 1. a ! i \<le> x"
      proof (intro allI impI)
        fix i assume "i < mid + 1"
        then have "a ! i \<le> a ! mid" using srt mid "1.prems"
          by (simp add: sorted_iff_nth_mono)
        with ge show "a ! i \<le> x" by simp
      qed
      have eq: "bisect_loop a x lo hi = bisect_loop a x (mid + 1) hi"
        using True ge by (simp add: bisect_loop.simps[of a x lo hi] mid_def)
      have "mid + 1 \<le> bisect_loop a x (mid + 1) hi \<and> bisect_loop a x (mid + 1) hi \<le> hi \<and>
        (\<forall>i<bisect_loop a x (mid + 1) hi. a ! i \<le> x) \<and>
        (\<forall>i. bisect_loop a x (mid + 1) hi \<le> i \<and> i < length a \<longrightarrow> x < a ! i)"
        using "1.IH"(2)[OF True mid_def ge srt] mid "1.prems" low by simp
      with eq mid show ?thesis by simp
    qed
  qed
qed

lemma bisect_spec:
  assumes "sorted a"
  shows "bisect a x \<le> length a" "i < bisect a x \<Longrightarrow> a ! i \<le> x"
    "bisect a x \<le> i \<Longrightarrow> i < length a \<Longrightarrow> x < a ! i"
  using bisect_loop_spec[OF assms, of 0 "length a" x] by (auto simp: bisect_def)

subsection \<open>Chromosome lookup\<close>

text \<open>
  Claim C2, as amended. \<open>bisect\<close> returns the insertion point to the right of equal
  elements, so for a sorted column of upper ends and a SNP index below the last of them,
  the reported chromosome is the smallest 1-indexed \<open>c\<close> whose upper end is strictly
  greater than the SNP index: every earlier chromosome has an upper end at or below the
  index. With the boundary table [[0,10],[10,25],[25,40]] the indices 12, 0 and 39 are
  reported on chromosomes 2, 1 and 3.
\<close>

theorem chromosome_smallest_strict:
  assumes srt: "sorted (map snd chr_index)"
    and i: "i < length snp_idx"
    and ne: "chr_index \<noteq> []"
    and last: "int (snp_idx ! i) < snd (last chr_index)"
  shows "1 \<le> chromosomes chr_index snp_idx ! i \<and>
         chromosomes chr_index snp_idx ! i \<le> length chr_index \<and>
         int (snp_idx ! i) < snd (chr_index ! (chromosomes chr_index snp_idx ! i - 1)) \<and>
         (\<forall>c. 1 \<le> c \<and> c < chromosomes chr_index snp_idx ! i \<longrightarrow>
              snd (chr_index ! (c - 1)) \<le> int (snp_idx ! i)) \<and>
         chromosomes example_chr_regions [12, 0, 39] = [2, 1, 3]"
proof -
  define a where "a = map snd chr_index"
  define x where "x = int (snp_idx ! i)"
  define r where "r = bisect a x"
  have c: "chromosomes chr_index snp_idx ! i = r + 1"
    using i by (simp add: chromosomes_def chromosome_def r_def a_def x_def)
  have len: "length a = length chr_index" by (simp add: a_def)
  have nth: "\<And>k. k < length chr_index \<Longrightarrow> a ! k = snd (chr_index ! k)"
    by (simp add: a_def)
  have "sorted a" using srt by (simp add: a_def)
  note spec = bisect_spec[OF this, where x = x, folded r_def]
  have r_lt: "r < length chr_index"
  proof (rule ccontr)
    assume "\<not> r < length chr_index"
    with spec(1) len have "r = length chr_index" by simp
    moreover have "0 < length chr_index" using ne by simp
    ultimately have "length chr_index - 1 < r" by simp
    from spec(2)[OF this] have "a ! (length chr_index - 1) \<le> x" .
    moreover have "a ! (length chr_index - 1) = snd (last chr_index)"
      using ne by (simp add: nth last_conv_nth)
    ultimately show False using last by (simp add: x_def)
  qed
  have "x < a ! r" using spec(3)[of r] r_lt len by simp
  then have upper: "x < snd (chr_index ! r)" using r_lt by (simp add: nth)
  have lower: "\<forall>c. 1 \<le> c \<and> c < r + 1 \<longrightarrow> snd (chr_index ! (c - 1)) \<le> x"
  proof (intro allI impI)
    fix c assume "1 \<le> c \<and> c < r + 1"
    then have "c - 1 < r" by arith
    from spec(2)[OF this] have "a ! (c - 1) \<le> x" .
    moreover have "c - 1 < length chr_index" using \<open>c - 1 < r\<close> r_lt by simp
    ultimately show "snd (chr_index ! (c - 1)) \<le> x" by (simp add: nth)
  qed
  have ex: "chromosomes example_chr_regions [12, 0, 39] = [2, 1, 3]"
    by code_simp
  show ?thesis
    unfolding c using r_lt upper lower ex by (simp add: x_def)
qed

theorem chromosome_smallest_strict_witness:
  "sorted (map snd example_chr_regions) \<and> example_chr_regions \<noteq> [] \<and>
   int ([12, 0, 39] ! 0) < snd (last example_chr_regions) \<and>
   chromosomes example_chr_regions [12, 0, 39] ! 0 = 2 \<and>
   int ([12, 0, 39] ! 0) < snd (example_chr_regions ! (2 - 1)) \<and>
   snd (example_chr_regions ! (1 - 1)) \<le> int ([12, 0, 39] ! 0)"
proof -
  have h1: "sorted (map snd example_chr_regions)" by (simp add: example_chr_regions_def)
  have h2: "(0::nat) < length [12, 0, 39 :: nat]" by simp
  have h3: "example_chr_regions \<noteq> []" by (simp add: example_chr_regions_def)
  have h4: "int ([12, 0, 39] ! 0) < snd (last example_chr_regions)"
    by (simp add: example_chr_regions_def)
  have c: "chromosomes example_chr_regions [12, 0, 39] ! 0 = 2" by code_simp
  from chromosome_smallest_strict[OF h1 h2 h3 h4] c h1 h3 h4 show ?thesis
    by (simp add: example_chr_regions_def)
qed

text \<open>
  The claim as the specification words it (the smallest \<open>c\<close> with index \<open>\<le>\<close> the upper
  end) fails where a SNP index equals an upper end: index 10 is at most the upper end 10
  of chromosome 1, and the notebook reports chromosome 2, whose range starts at 10.
\<close>

theorem chromosome_boundary_counterexample:
  "chromosomes example_chr_regions [10] = [2] \<and> bucket_le example_chr_regions 10 = 1 \<and>
   int 10 \<le> snd (example_chr_regions ! (1 - 1))"
  by code_simp

subsection \<open>Kinship subsetting\<close>

text \<open>
  Claim C10. For a square symmetric kinship array and a list of valid indices, every
  submatrix that the read \<open>kinship[idx, :][:, idx]\<close> returns is symmetric: it has one row
  and one column per index and holds at \<open>(i, j)\<close> the kinship of the \<open>i\<close>-th and \<open>j\<close>-th
  listed index. The read returns when the index list is strictly increasing, as the
  sorted list of the notebook is, and raises TypeError otherwise.
\<close>

theorem subset_kinship_symmetric:
  assumes ws: "well_shaped kinship"
    and sq: "shape0 kinship = shape1 kinship"
    and sym: "\<forall>i<shape0 kinship. \<forall>j<shape0 kinship. entry kinship i j = entry kinship j i"
    and valid: "\<forall>i\<in>set idx. i < shape0 kinship"
  shows "(sorted_wrt (<) idx \<longrightarrow> (\<exists>K. subset_kinship kinship idx = Inr K)) \<and>
         (\<not> sorted_wrt (<) idx \<longrightarrow> subset_kinship kinship idx = Inl TypeError) \<and>
         (\<forall>K. subset_kinship kinship idx = Inr K \<longrightarrow>
            well_shaped K \<and> shape0 K = length idx \<and> shape1 K = length idx \<and>
            (\<forall>i<length idx. \<forall>j<length idx.
               entry K i j = entry kinship (idx ! i) (idx ! j) \<and> entry K i j = entry K j i))"
proof -
  define K0 where
    "K0 = Array2 (length idx) (length idx)
            (map (\<lambda>r. map (\<lambda>j. r ! j) idx) (map (\<lambda>i. data kinship ! i) idx))"
  have all: "list_all (\<lambda>i. i < shape0 kinship) idx" "list_all (\<lambda>i. i < shape1 kinship) idx"
    using valid sq by (simp_all add: list_all_iff)
  have run: "subset_kinship kinship idx = (if sorted_wrt (<) idx then Inr K0 else Inl TypeError)"
    using all
    by (simp add: subset_kinship_def h5_take_rows_def take_rows_def take_cols_def K0_def)
  have shape: "well_shaped K0" "shape0 K0 = length idx" "shape1 K0 = length idx"
    by (simp_all add: K0_def well_shaped_def list_all_iff)
  have ent: "entry K0 i j = entry kinship (idx ! i) (idx ! j)"
    if "i < length idx" "j < length idx" for i j
    using that by (simp add: K0_def entry_def)
  have symK: "entry K0 i j = entry K0 j i" if "i < length idx" "j < length idx" for i j
  proof -
    have "idx ! i < shape0 kinship" "idx ! j < shape0 kinship"
      using valid that by simp_all
    then show ?thesis using sym that by (simp add: ent)
  qed
  have returned: "well_shaped K \<and> shape0 K = length idx \<and> shape1 K = length idx \<and>
      (\<forall>i<length idx. \<forall>j<length idx.
         entry K i j = entry kinship (idx ! i) (idx ! j) \<and> entry K i j = entry K j i)"
    if "subset_kinship kinship idx = Inr K" for K
  proof -
    from that run have "K = K0" by (simp split: if_splits)
    then show ?thesis using shape ent symK by simp
  qed
  have ok: "sorted_wrt (<) idx \<longrightarrow> (\<exists>K. subset_kinship kinship idx = Inr K)"
    and bad: "\<not> sorted_wrt (<) idx \<longrightarrow> subset_kinship kinship idx = Inl TypeError"
    using run by simp_all
  show ?thesis
  proof (intro conjI allI impI)
    show "sorted_wrt (<) idx \<Longrightarrow> \<exists>K. subset_kinship kinship idx = Inr K" using ok by simp
    show "\<not> sorted_wrt (<) idx \<Longrightarrow> subset_kinship kinship idx = Inl TypeError"
      using bad by simp
  qed (use returned in blast)+
qed

theorem subset_kinship_symmetric_witness:
  "well_shaped example_kinship \<and> shape0 example_kinship = shape1 example_kinship \<and>
   sorted_wrt (<) [0, 2 :: nat] \<and>
   subset_kinship example_kinship [0, 2] = Inr (Array2 2 2 [[1, 3], [3, 6]]) \<and>
   entry (Array2 2 2 [[1, 3], [3, 6 :: rat]]) 0 1 = entry (Array2 2 2 [[1, 3], [3, 6 :: rat]]) 1 0 \<and>
   subset_kinship example_kinship [2, 0] = Inl TypeError"
proof -
  have ws: "well_shaped example_kinship"
    by (simp add: example_kinship_def well_shaped_def)
  have sq: "shape0 example_kinship = shape1 example_kinship"
    by (simp add: example_kinship_def)
  have sym: "\<forall>i<shape0 example_kinship. \<forall>j<shape0 example_kinship.
      entry example_kinship i j = entry example_kinship j i"
    by (auto simp: example_kinship_def entry_def less_Suc_eq eval_nat_numeral)
  have valid: "\<forall>i\<in>set [0, 2]. i < shape0 example_kinship"
    and valid': "\<forall>i\<in>set [2, 0]. i < shape0 example_kinship"
    by (simp_all add: example_kinship_def)
  have run: "subset_kinship example_kinship [0, 2] = Inr (Array2 2 2 [[1, 3], [3, 6]])"
    by (simp add: example_kinship_def subset_kinship_def h5_take_rows_def take_rows_def
        take_cols_def)
  from subset_kinship_symmetric[OF ws sq sym valid] run
  have "\<forall>i<length [0, 2 :: nat]. \<forall>j<length [0, 2 :: nat].
      entry (Array2 2 2 [[1, 3], [3, 6 :: rat]]) i j = entry (Array2 2 2 [[1, 3], [3, 6 :: rat]]) j i"
    by blast
  then have e: "entry (Array2 2 2 [[1, 3], [3, 6 :: rat]]) 0 1 =
      entry (Array2 2 2 [[1, 3], [3, 6 :: rat]]) 1 0"
    by simp
  from subset_kinship_symmetric[OF ws sq sym valid']
  have t: "subset_kinship example_kinship [2, 0] = Inl TypeError" by simp
  from ws sq run e t show ?thesis by simp
qed

subsection \<open>Accession alignment\<close>

lemma first_index_None: "first_index xs a = None \<longleftrightarrow> a \<notin> set xs"
  by (induction xs) auto

lemma first_index_Some: "first_index xs a = Some i \<Longrightarrow> i < length xs \<and> xs ! i = a"
  by (induction xs arbitrary: i) (auto split: if_splits)

lemma first_index_nth: "distinct xs \<Longrightarrow> i < length xs \<Longrightarrow> first_index xs (xs ! i) = Some i"
proof (induction xs arbitrary: i)
  case Nil
  then show ?case by simp
next
  case (Cons x xs)
  show ?case
  proof (cases i)
    case 0
    then show ?thesis by simp
  next
    case (Suc k)
    with Cons.prems have "k < length xs" "xs ! k \<in> set xs" "x \<notin> set xs" by auto
    then have "x \<noteq> xs ! k" by auto
    with Suc Cons.IH[of k] Cons.prems \<open>k < length xs\<close> show ?thesis by simp
  qed
qed

lemma collect_map_Inr: "(\<And>x. x \<in> set xs \<Longrightarrow> f x = Inr (g x)) \<Longrightarrow> collect (map f xs) = Inr (map g xs)"
  by (induction xs) auto

lemma where_first_in: "a \<in> set xs \<Longrightarrow> where_first xs a = Inr (index_of xs a)"
  by (cases "first_index xs a") (auto simp: where_first_def index_of_def first_index_None)

lemma index_of_props: "a \<in> set xs \<Longrightarrow> index_of xs a < length xs \<and> xs ! index_of xs a = a"
  by (cases "first_index xs a") (auto simp: index_of_def first_index_None dest: first_index_Some)

lemma index_of_nth: "distinct xs \<Longrightarrow> i < length xs \<Longrightarrow> index_of xs (xs ! i) = i"
  by (simp add: index_of_def first_index_nth)

lemma index_of_inj: "inj_on (index_of xs) (set xs)"
  by (rule inj_onI) (metis index_of_props)

lemma acn_indices_in:
  assumes "set labels \<subseteq> set accessions"
  shows "acn_indices accessions labels = Inr (sort (map (index_of accessions) labels))"
proof -
  have "collect (map (where_first accessions) labels) = Inr (map (index_of accessions) labels)"
  proof (rule collect_map_Inr)
    fix x assume "x \<in> set labels"
    with assms show "where_first accessions x = Inr (index_of accessions x)"
      by (auto simp: where_first_in)
  qed
  then show ?thesis by (simp add: acn_indices_def)
qed

lemma sorted_indices_filter:
  assumes "distinct accessions" "distinct labels" "set labels \<subseteq> set accessions"
  shows "sort (map (index_of accessions) labels) =
         filter (\<lambda>i. accessions ! i \<in> set labels) [0..<length accessions]"
proof (rule sorted_distinct_set_unique)
  show "sorted (sort (map (index_of accessions) labels))" by simp
  show "distinct (sort (map (index_of accessions) labels))"
    using assms(2,3) index_of_inj[of accessions]
    by (simp add: distinct_map inj_on_subset)
  show "sorted (filter (\<lambda>i. accessions ! i \<in> set labels) [0..<length accessions])"
    by (simp add: sorted_wrt_filter)
  show "distinct (filter (\<lambda>i. accessions ! i \<in> set labels) [0..<length accessions])" by simp
  show "set (sort (map (index_of accessions) labels)) =
        set (filter (\<lambda>i. accessions ! i \<in> set labels) [0..<length accessions])"
  proof (intro set_eqI iffI)
    fix i assume "i \<in> set (sort (map (index_of accessions) labels))"
    then obtain a where "a \<in> set labels" "i = index_of accessions a" by auto
    with assms(3) index_of_props[of a accessions]
    show "i \<in> set (filter (\<lambda>i. accessions ! i \<in> set labels) [0..<length accessions])"
      by auto
  next
    fix i assume "i \<in> set (filter (\<lambda>i. accessions ! i \<in> set labels) [0..<length accessions])"
    then have i: "i < length accessions" "accessions ! i \<in> set labels" by auto
    then have "index_of accessions (accessions ! i) = i" using assms(1) by (simp add: index_of_nth)
    with i(2) show "i \<in> set (sort (map (index_of accessions) labels))"
      by (auto simp: image_iff intro!: bexI[of _ "accessions ! i"])
  qed
qed

lemma map_nth_filter:
  "map (\<lambda>i. xs ! i) (filter (\<lambda>i. P (xs ! i)) [0..<length xs]) = filter P xs"
proof -
  have "filter P xs = filter P (map (\<lambda>i. xs ! i) [0..<length xs])" by (simp add: map_nth)
  also have "\<dots> = map (\<lambda>i. xs ! i) (filter (P \<circ> (\<lambda>i. xs ! i)) [0..<length xs])"
    by (rule filter_map)
  finally show ?thesis by (simp add: comp_def)
qed

lemma filter_label_distinct:
  "distinct (map fst df) \<Longrightarrow> (l, v) \<in> set df \<Longrightarrow> filter (\<lambda>row. fst row = l) df = [(l, v)]"
proof (induction df)
  case Nil
  then show ?case by simp
next
  case (Cons r df)
  show ?case
  proof (cases "r = (l, v)")
    case True
    with Cons.prems have "\<forall>row\<in>set df. fst row \<noteq> l" by (auto simp: image_iff)
    then have "filter (\<lambda>row. fst row = l) df = []" by (simp add: filter_empty_conv)
    with True show ?thesis by simp
  next
    case False
    with Cons.prems have in_df: "(l, v) \<in> set df" by simp
    with Cons.prems have "fst r \<noteq> l" by (auto simp: image_iff)
    with Cons.IH Cons.prems in_df show ?thesis by simp
  qed
qed

lemma loc_distinct:
  assumes "distinct (map fst df)" "set labels \<subseteq> fst ` set df"
  shows "\<exists>r. loc df labels = Inr r \<and> map fst r = labels \<and> set r \<subseteq> set df"
proof -
  have all: "list_all (\<lambda>l. l \<in> set (map fst df)) labels"
    using assms(2) by (auto simp: list_all_iff)
  have "map fst (concat (map (\<lambda>l. filter (\<lambda>row. fst row = l) df) labels)) = labels"
    using assms(2)
  proof (induction labels)
    case Nil
    then show ?case by simp
  next
    case (Cons l ls)
    then obtain v where "(l, v) \<in> set df" by auto
    from filter_label_distinct[OF assms(1) this] Cons show ?case by simp
  qed
  moreover have "set (concat (map (\<lambda>l. filter (\<lambda>row. fst row = l) df) labels)) \<subseteq> set df"
    by auto
  ultimately show ?thesis using all by (simp add: loc_def)
qed

lemma cell_3a_result:
  assumes dp: "distinct (map fst pheno)" and da: "distinct accessions"
  shows "\<exists>v. cell_3a pheno accessions = Inr v \<and>
           acn_order v = filter (\<lambda>acn. acn \<in> fst ` set pheno) accessions \<and>
           geno_indices v = filter (\<lambda>i. accessions ! i \<in> fst ` set pheno) [0..<length accessions] \<and>
           map fst (pheno_aligned v) = acn_order v \<and>
           set (pheno_aligned v) \<subseteq> set pheno \<and>
           Y_matrix v = to_numpy (pheno_aligned v)"
proof -
  define labels where "labels = acn_genotyped pheno accessions"
  have labels: "distinct labels" "set labels = fst ` set pheno \<inter> set accessions"
    using dp by (auto simp: labels_def acn_genotyped_def)
  from loc_distinct[OF dp, of labels] labels(2) obtain pheno1 where
    p1: "loc pheno labels = Inr pheno1" "map fst pheno1 = labels" "set pheno1 \<subseteq> set pheno"
    by auto
  define idx where "idx = filter (\<lambda>i. accessions ! i \<in> set labels) [0..<length accessions]"
  have idx: "acn_indices accessions (map fst pheno1) = Inr idx"
    using labels(2) by (simp add: p1(2) acn_indices_in sorted_indices_filter[OF da labels(1)] idx_def)
  define order where "order = filter (\<lambda>acn. acn \<in> set labels) accessions"
  have "list_all (\<lambda>i. i < length accessions) idx" by (simp add: idx_def list_all_iff)
  then have "take_idx accessions idx = Inr order"
    using map_nth_filter[of accessions "\<lambda>acn. acn \<in> set labels"]
    by (simp add: take_idx_def idx_def order_def)
  moreover have "sorted_wrt (<) idx" by (simp add: idx_def sorted_wrt_filter)
  ultimately have ord: "h5_take_idx accessions idx = Inr order"
    by (simp add: h5_take_idx_def)
  have "distinct (map fst pheno1)" using p1(2) labels(1) by simp
  moreover have "set order \<subseteq> fst ` set pheno1"
    using p1(2) by (auto simp: order_def)
  ultimately obtain pheno2 where
    p2: "loc pheno1 order = Inr pheno2" "map fst pheno2 = order" "set pheno2 \<subseteq> set pheno1"
    using loc_distinct by blast
  have run: "cell_3a pheno accessions =
      Inr \<lparr>geno_indices = idx, acn_order = order, pheno_aligned = pheno2,
           Y_matrix = to_numpy pheno2\<rparr>"
    by (simp add: cell_3a_def labels_def[symmetric] p1(1) idx ord p2(1))
  have "order = filter (\<lambda>acn. acn \<in> fst ` set pheno) accessions"
    unfolding order_def labels(2) by (rule filter_cong) auto
  moreover have "idx = filter (\<lambda>i. accessions ! i \<in> fst ` set pheno) [0..<length accessions]"
    unfolding idx_def labels(2) by (rule filter_cong) auto
  ultimately show ?thesis using run p2 p1(3) by auto
qed

text \<open>
  Claim C4. For a phenotype table with distinct accession labels and a duplicate-free
  genotype accession list, cell 3a succeeds and \<open>acn_order\<close> is the genotype accession
  list restricted to the phenotyped accessions, in the genotype list's order: its elements
  are exactly the accessions in both sources, its length is the size of the intersection,
  and no element occurs twice.
\<close>

theorem accession_order_correct:
  assumes dp: "distinct (map fst pheno)" and da: "distinct accessions"
  shows "\<exists>v. cell_3a pheno accessions = Inr v \<and>
           acn_order v = filter (\<lambda>acn. acn \<in> fst ` set pheno) accessions \<and>
           set (acn_order v) = fst ` set pheno \<inter> set accessions \<and>
           length (acn_order v) = card (fst ` set pheno \<inter> set accessions) \<and>
           distinct (acn_order v)"
proof -
  from cell_3a_result[OF dp da] obtain v where
    run: "cell_3a pheno accessions = Inr v"
    and ord: "acn_order v = filter (\<lambda>acn. acn \<in> fst ` set pheno) accessions"
    by (elim exE conjE) (rule that; assumption)
  have s: "set (acn_order v) = fst ` set pheno \<inter> set accessions"
    unfolding ord by auto
  have d: "distinct (acn_order v)" unfolding ord using da by simp
  have "length (acn_order v) = card (set (acn_order v))"
    using d by (simp add: distinct_card)
  then have l: "length (acn_order v) = card (fst ` set pheno \<inter> set accessions)"
    by (simp only: s)
  show ?thesis
  proof (intro exI[of _ v] conjI)
    show "cell_3a pheno accessions = Inr v" by (fact run)
  qed (fact ord s l d)+
qed

theorem accession_order_correct_witness:
  "distinct (map fst example_pheno) \<and> distinct example_accessions \<and>
   map_sum id acn_order (cell_3a example_pheno example_accessions) = Inr [''B'', ''C'', ''D'']"
proof -
  have dp: "distinct (map fst example_pheno)" by (simp add: example_pheno_def)
  have da: "distinct example_accessions" by (simp add: example_accessions_def)
  from accession_order_correct[OF dp da] obtain v where
    run: "cell_3a example_pheno example_accessions = Inr v"
    and ord: "acn_order v = filter (\<lambda>acn. acn \<in> fst ` set example_pheno) example_accessions"
    by (elim exE conjE) (rule that; assumption)
  have "acn_order v = [''B'', ''C'', ''D'']"
    unfolding ord by (simp add: example_pheno_def example_accessions_def)
  with dp da run show ?thesis by simp
qed

subsection \<open>Rounding to binary64\<close>

lemma round_half_even_of_int: "round_half_even (of_int z) = z"
  by (simp add: round_half_even_def)

lemma binade_of_nat:
  assumes "0 < n"
  shows "binade (of_nat n) = bitlen (int n) - 1"
proof -
  have q: "quotient_of \<bar>of_nat n :: rat\<bar> = (int n, 1)"
    using quotient_of_int[of "int n"] by simp
  have b1: "bitlen 1 = 1" by (simp add: compute_bitlen)
  have "2 ^ nat (bitlen (int n) - 1) \<le> int n" using bitlen_bounds[of "int n"] assms by simp
  then have "(of_int (2 ^ nat (bitlen (int n) - 1)) :: rat) \<le> of_int (int n)"
    by (simp only: of_int_le_iff)
  moreover have "1 \<le> bitlen (int n)" using assms by (simp add: bitlen_alt_def)
  ultimately have "(2 :: rat) powi (bitlen (int n) - 1) \<le> of_nat n"
    by (simp add: power_int_def)
  then show ?thesis by (simp add: binade_def q b1)
qed

text \<open>Integers below \<open>2 ^ 53\<close> are binary64 values: converting them changes nothing.\<close>

lemma float64_of_nat:
  assumes "n < 2 ^ 53"
  shows "float64 (of_nat n) = of_nat n"
proof (cases "n = 0")
  case True
  then show ?thesis by (simp add: float64_def)
next
  case False
  then have pos: "0 < n" by simp
  define d where "d = bitlen (int n) - 1"
  have d0: "0 \<le> d" using pos by (simp add: d_def bitlen_alt_def)
  have d52: "d \<le> 52"
  proof (rule ccontr)
    assume "\<not> d \<le> 52"
    then have "53 \<le> nat d" by simp
    then have "(2 :: int) ^ 53 \<le> 2 ^ nat d" by (intro power_increasing) simp_all
    also have "\<dots> \<le> int n" using bitlen_bounds[of "int n"] pos by (simp add: d_def)
    finally show False using assms by simp
  qed
  define k where "k = nat (52 - d)"
  have ulp: "(2 :: rat) powi (d - 52) = 1 / 2 ^ k"
    using d52 by (cases "d = 52") (simp_all add: power_int_def k_def inverse_eq_divide power_one_over)
  have "(of_nat n :: rat) / (1 / 2 ^ k) = of_int (int n * 2 ^ k)" by simp
  then have "round_half_even ((of_nat n :: rat) / (1 / 2 ^ k)) = int n * 2 ^ k"
    by (simp only: round_half_even_of_int)
  then show ?thesis
    using False by (simp add: float64_def binade_of_nat[OF pos] d_def[symmetric] ulp)
qed

lemma float64_zero: "float64 0 = 0"
  by (simp add: float64_def)

lemma MAF_thrs_value: "MAF_thrs = 3602879701896397 / 72057594037927936"
  unfolding MAF_thrs_def by code_simp

subsection \<open>Allele frequency filter\<close>

lemma sum_list_binary: "set r \<subseteq> {0, 1} \<Longrightarrow> sum_list r = int (ones r)"
  by (induction r) (auto simp: ones_def)

lemma ones_le_length: "ones r \<le> length r"
  by (simp add: ones_def count_le_length)

lemma length_MAF: "length (MAF G) = length (data G)"
  by (simp add: MAF_def MAC_def AC0_def AC1_def)

lemma MAF_nth:
  assumes "i < length (data G)"
  shows "MAF G ! i =
    true_divide (min (int (shape1 G) - sum_list (data G ! i)) (sum_list (data G ! i))) (shape1 G)"
  using assms by (simp add: MAF_def MAC_def AC0_def AC1_def)

text \<open>The quotient numpy computes for counts below \<open>2 ^ 53\<close> is the correctly rounded
  one.\<close>

lemma true_divide_small:
  assumes "0 < n" "n < 2 ^ 53" "m \<le> n"
  shows "true_divide (int m) n = Fl (float64 (of_nat m / of_nat n))"
proof -
  have "m < 2 ^ 53" using assms by simp
  then have "float64 (of_int (int m)) = of_nat m" using float64_of_nat[of m] by simp
  moreover have "float64 (of_nat n) = of_nat n" using assms(2) by (rule float64_of_nat)
  ultimately show ?thesis using assms(1) by (simp add: true_divide_def)
qed

lemma MAF_binary:
  assumes i: "i < length (data G)" and len: "length (data G ! i) = shape1 G"
    and bin: "set (data G ! i) \<subseteq> {0, 1}" and pos: "0 < shape1 G" and small: "shape1 G < 2 ^ 53"
  shows "MAF G ! i = Fl (maf_spec (ones (data G ! i)) (shape1 G))"
proof -
  define k where "k = ones (data G ! i)"
  define N where "N = shape1 G"
  have kN: "k \<le> N" using ones_le_length[of "data G ! i"] len by (simp add: k_def N_def)
  have "min (int N - int k) (int k) = int (min k (N - k))" using kN by arith
  moreover have "min k (N - k) \<le> N" by simp
  ultimately show ?thesis
    using true_divide_small[of N "min k (N - k)"] pos small
    by (simp add: MAF_nth[OF i] sum_list_binary[OF bin] maf_spec_def
        k_def[symmetric] N_def[symmetric])
qed

lemma sorted_SNP_indices: "sorted_wrt (<) (SNP_indices G thr)"
  by (simp add: SNP_indices_def sorted_wrt_filter)

lemma SNP_indices_bound: "i \<in> set (SNP_indices G thr) \<Longrightarrow> i < length (data G)"
  by (simp add: SNP_indices_def length_MAF)

lemma MAF_no_accessions:
  assumes "shape1 G = 0" "i < length (data G)" "length (data G ! i) = 0"
  shows "MAF G ! i = NaN"
  using assms by (simp add: MAF_nth true_divide_def)

text \<open>
  Claim C3. For a well-shaped binary SNP-by-accession array over \<open>N\<close> accessions the
  filter cell succeeds. When \<open>0 < N < 2 ^ 53\<close> the frequency computed for a row with
  \<open>k\<close> ones is the float \<open>min(k, N - k) / N\<close>, which is 0 for an all-0 and for an all-1
  row, and a row is retained exactly when that frequency is at least the threshold; with
  no accession every frequency is NaN and no row is retained. The retained indices are in
  increasing order, the frequencies handed on are the computed ones at the retained
  indices, and the filtered matrix, transposed to accession-major layout, holds the
  retained rows in that order.
\<close>

theorem maf_filter_correct:
  assumes ws: "well_shaped G" and bin: "\<forall>r\<in>set (data G). set r \<subseteq> {0, 1}"
  shows "\<exists>v. cell_3b G thr = Inr v \<and>
           length (MAF G) = shape0 G \<and>
           (0 < shape1 G \<and> shape1 G < 2 ^ 53 \<longrightarrow>
              (\<forall>i<shape0 G. MAF G ! i = Fl (maf_spec (ones (data G ! i)) (shape1 G)))) \<and>
           (0 < shape1 G \<and> shape1 G < 2 ^ 53 \<longrightarrow>
              (\<forall>i<shape0 G. ones (data G ! i) = 0 \<or> ones (data G ! i) = shape1 G \<longrightarrow>
                 MAF G ! i = Fl 0)) \<and>
           (0 < shape1 G \<and> shape1 G < 2 ^ 53 \<longrightarrow>
              snp_indices v =
                filter (\<lambda>i. thr \<le> maf_spec (ones (data G ! i)) (shape1 G)) [0..<shape0 G]) \<and>
           (shape1 G = 0 \<longrightarrow> snp_indices v = []) \<and>
           sorted_wrt (<) (snp_indices v) \<and>
           snps_maf v = map (\<lambda>i. MAF G ! i) (snp_indices v) \<and>
           shape0 (G_matrix v) = shape1 G \<and> shape1 (G_matrix v) = length (snp_indices v) \<and>
           well_shaped (G_matrix v) \<and>
           (\<forall>a<shape1 G. \<forall>j<length (snp_indices v).
              entry (G_matrix v) a j = entry G (snp_indices v ! j) a)"
proof -
  have len: "length (data G) = shape0 G" and rows: "\<And>r. r \<in> set (data G) \<Longrightarrow> length r = shape1 G"
    using ws by (auto simp: well_shaped_def list_all_iff)
  define idx where "idx = SNP_indices G thr"
  define G' where "G' = Array2 (length idx) (shape1 G) (map (\<lambda>i. data G ! i) idx)"
  define v where "v = \<lparr>G_matrix = transpose_array G', snp_indices = idx, snps_maf = SNPs_MAF G thr\<rparr>"
  have bound: "\<And>i. i \<in> set idx \<Longrightarrow> i < shape0 G"
    using SNP_indices_bound[of _ G thr] len by (simp add: idx_def)
  then have "list_all (\<lambda>i. i < shape0 G) idx" by (simp add: list_all_iff)
  then have run: "cell_3b G thr = Inr v"
    by (simp add: cell_3b_def take_rows_def idx_def[symmetric] G'_def v_def)
  have lm: "length (MAF G) = shape0 G" by (simp add: length_MAF len)
  have formula_i: "MAF G ! i = Fl (maf_spec (ones (data G ! i)) (shape1 G))"
    if "0 < shape1 G" "shape1 G < 2 ^ 53" "i < shape0 G" for i
  proof -
    have i: "i < length (data G)" using that len by simp
    then have "data G ! i \<in> set (data G)" by simp
    with rows bin have "length (data G ! i) = shape1 G" "set (data G ! i) \<subseteq> {0, 1}" by auto
    from MAF_binary[OF i this that(1,2)] show ?thesis .
  qed
  have formula: "0 < shape1 G \<and> shape1 G < 2 ^ 53 \<longrightarrow>
      (\<forall>i<shape0 G. MAF G ! i = Fl (maf_spec (ones (data G ! i)) (shape1 G)))"
    using formula_i by simp
  have mono: "0 < shape1 G \<and> shape1 G < 2 ^ 53 \<longrightarrow>
      (\<forall>i<shape0 G. ones (data G ! i) = 0 \<or> ones (data G ! i) = shape1 G \<longrightarrow>
         MAF G ! i = Fl 0)"
    using formula_i by (auto simp: maf_spec_def float64_zero)
  have ix: "0 < shape1 G \<and> shape1 G < 2 ^ 53 \<longrightarrow>
      snp_indices v =
        filter (\<lambda>i. thr \<le> maf_spec (ones (data G ! i)) (shape1 G)) [0..<shape0 G]"
  proof
    assume N: "0 < shape1 G \<and> shape1 G < 2 ^ 53"
    have "filter (\<lambda>i. np_ge (MAF G ! i) thr) [0..<shape0 G] =
        filter (\<lambda>i. thr \<le> maf_spec (ones (data G ! i)) (shape1 G)) [0..<shape0 G]"
      by (rule filter_cong) (use N formula_i in simp_all)
    then show "snp_indices v =
        filter (\<lambda>i. thr \<le> maf_spec (ones (data G ! i)) (shape1 G)) [0..<shape0 G]"
      by (simp add: v_def idx_def SNP_indices_def lm)
  qed
  have none: "shape1 G = 0 \<longrightarrow> snp_indices v = []"
  proof
    assume N: "shape1 G = 0"
    have "\<not> np_ge (MAF G ! i) thr" if "i < shape0 G" for i
    proof -
      have i: "i < length (data G)" using that len by simp
      then have "data G ! i \<in> set (data G)" by simp
      with rows N have "length (data G ! i) = 0" by simp
      from MAF_no_accessions[OF N i this] show ?thesis by simp
    qed
    then show "snp_indices v = []"
      by (simp add: v_def idx_def SNP_indices_def lm filter_empty_conv)
  qed
  have srt: "sorted_wrt (<) (snp_indices v)"
    by (simp add: v_def idx_def sorted_SNP_indices)
  have mafs: "snps_maf v = map (\<lambda>i. MAF G ! i) (snp_indices v)"
    by (simp add: v_def idx_def SNPs_MAF_def)
  have shp: "shape0 (G_matrix v) = shape1 G" "shape1 (G_matrix v) = length (snp_indices v)"
    "well_shaped (G_matrix v)"
    by (simp_all add: v_def transpose_array_def G'_def well_shaped_def list_all_iff)
  have ent: "\<forall>a<shape1 G. \<forall>j<length (snp_indices v).
      entry (G_matrix v) a j = entry G (snp_indices v ! j) a"
    by (simp add: v_def transpose_array_def G'_def entry_def)
  show ?thesis
  proof (intro exI[of _ v] conjI)
    show "cell_3b G thr = Inr v" by (fact run)
  qed (fact lm formula mono ix none srt mafs shp ent)+
qed

lemma ones_example_G:
  "map ones (data example_G) = [0, 40, 1, 2, 39, 38, 20]"
  by code_simp

lemma maf_spec_values:
  "maf_spec 0 40 = 0" "maf_spec 40 40 = 0"
  "maf_spec 1 40 = 3602879701896397 / 144115188075855872"
  "maf_spec (Suc 0) 40 = 3602879701896397 / 144115188075855872"
  "maf_spec 2 40 = 3602879701896397 / 72057594037927936"
  "maf_spec 39 40 = 3602879701896397 / 144115188075855872"
  "maf_spec 38 40 = 3602879701896397 / 72057594037927936"
  "maf_spec 20 40 = 1 / 2"
  by code_simp+

theorem maf_filter_correct_witness:
  "well_shaped example_G \<and>
   MAF_thrs = 3602879701896397 / 72057594037927936 \<and>
   map_sum id snp_indices (cell_3b example_G MAF_thrs) = Inr [3, 5, 6] \<and>
   map_sum id snps_maf (cell_3b example_G MAF_thrs) =
     Inr [Fl (3602879701896397 / 72057594037927936), Fl (3602879701896397 / 72057594037927936),
          Fl (1 / 2)] \<and>
   MAF example_G ! 0 = Fl 0 \<and> MAF example_G ! 1 = Fl 0 \<and>
   MAF example_G ! 2 = Fl (3602879701896397 / 144115188075855872) \<and>
   MAF example_G ! 4 = Fl (3602879701896397 / 144115188075855872)"
proof -
  have ws: "well_shaped example_G" by (simp add: example_G_def well_shaped_def)
  have bin: "\<forall>r\<in>set (data example_G). set r \<subseteq> {0, 1}" by (simp add: example_G_def)
  have sh: "shape0 example_G = 7" "shape1 example_G = 40" "length (data example_G) = 7"
    by (simp_all add: example_G_def)
  from maf_filter_correct[OF ws bin, of MAF_thrs] obtain v where
    run: "cell_3b example_G MAF_thrs = Inr v"
    and formula: "0 < shape1 example_G \<and> shape1 example_G < 2 ^ 53 \<longrightarrow>
      (\<forall>i<shape0 example_G.
         MAF example_G ! i = Fl (maf_spec (ones (data example_G ! i)) (shape1 example_G)))"
    and ix: "0 < shape1 example_G \<and> shape1 example_G < 2 ^ 53 \<longrightarrow>
      snp_indices v =
        filter (\<lambda>i. MAF_thrs \<le> maf_spec (ones (data example_G ! i)) (shape1 example_G))
          [0..<shape0 example_G]"
    and mafs: "snps_maf v = map (\<lambda>i. MAF example_G ! i) (snp_indices v)"
    by (elim exE conjE) (rule that; assumption)
  have small: "0 < (40 :: nat) \<and> (40 :: nat) < 2 ^ 53" by simp
  have up: "[0..<7] = [0, 1, 2, 3, 4, 5, 6]" by code_simp
  have o: "ones (data example_G ! i) = [0, 40, 1, 2, 39, 38, 20] ! i" if "i < 7" for i
  proof -
    have "map ones (data example_G) ! i = ones (data example_G ! i)"
      using that sh(3) by (intro nth_map) simp
    then show ?thesis by (simp only: ones_example_G)
  qed
  have f: "MAF example_G ! i = Fl (maf_spec ([0, 40, 1, 2, 39, 38, 20] ! i) 40)" if "i < 7" for i
  proof -
    from formula small have "\<forall>i<7. MAF example_G ! i = Fl (maf_spec (ones (data example_G ! i)) 40)"
      by (simp add: sh)
    with that show ?thesis by (simp add: o[OF that])
  qed
  have m: "MAF example_G ! 0 = Fl 0" "MAF example_G ! 1 = Fl 0"
    "MAF example_G ! 2 = Fl (3602879701896397 / 144115188075855872)"
    "MAF example_G ! 3 = Fl (3602879701896397 / 72057594037927936)"
    "MAF example_G ! 4 = Fl (3602879701896397 / 144115188075855872)"
    "MAF example_G ! 5 = Fl (3602879701896397 / 72057594037927936)"
    "MAF example_G ! 6 = Fl (1 / 2)"
    using f[of 0] f[of 1] f[of 2] f[of 3] f[of 4] f[of 5] f[of 6]
    by (simp_all add: maf_spec_values)
  have "snp_indices v =
      filter (\<lambda>i. MAF_thrs \<le> maf_spec (ones (data example_G ! i)) 40) [0..<7]"
    using ix small by (simp add: sh)
  also have "\<dots> = filter (\<lambda>i. MAF_thrs \<le> maf_spec ([0, 40, 1, 2, 39, 38, 20] ! i) 40) [0..<7]"
    by (rule filter_cong) (simp_all add: o)
  also have "\<dots> = [3, 5, 6]"
    unfolding up by (simp add: maf_spec_values MAF_thrs_value)
  finally have idx: "snp_indices v = [3, 5, 6]" .
  from idx mafs m have "snps_maf v =
      [Fl (3602879701896397 / 72057594037927936), Fl (3602879701896397 / 72057594037927936),
       Fl (1 / 2)]"
    by simp
  with idx ws run m MAF_thrs_value show ?thesis by simp
qed

subsection \<open>Result tables\<close>

lemma zip5_length:
  "length (zip5 cs ps vs ms es) =
   min (length cs) (min (length ps) (min (length vs) (min (length ms) (length es))))"
  by (induction cs ps vs ms es rule: zip5.induct) simp_all

lemma zip5_nth:
  "i < length (zip5 cs ps vs ms es) \<Longrightarrow>
   zip5 cs ps vs ms es ! i =
     [IntCell (int (cs ! i)), IntCell (ps ! i), FloatCell (vs ! i), FloatCell (ms ! i),
      FloatCell (es ! i)]"
proof (induction cs ps vs ms es arbitrary: i rule: zip5.induct)
  case (1 c cs p ps v vs m ms e es)
  then show ?case by (cases i) simp_all
qed simp_all

lemma save_results_Inr:
  assumes "list_all (\<lambda>i. i < length positions_all) snp_idx"
  shows "save_results chr_index positions_all snp_idx maf r =
     Inr (map StrCell [''chr'', ''pos'', ''pvalue'', ''maf'', ''GVE''] #
          zip5 (chromosomes chr_index snp_idx) (map (\<lambda>i. positions_all ! i) snp_idx)
            (fst r) maf (snd r))"
  using assms by (simp add: save_results_def take_idx_def to_csv_def)

lemma save_results_nc_Inr:
  assumes "list_all (\<lambda>i. i < length positions_all) snp_idx"
  shows "save_results_nc chr_index positions_all snp_idx maf r =
     Inr (map StrCell [''chr'', ''pos'', ''pvalue'', ''maf'', ''GVE''] #
          zip5 (chromosomes chr_index snp_idx) (map (\<lambda>i. positions_all ! i) snp_idx)
            (fst r) maf (snd r))"
  using assms by (simp add: save_results_nc_def take_idx_def to_csv_def)

lemma save_results_Inl:
  assumes "\<not> list_all (\<lambda>i. i < length positions_all) snp_idx"
  shows "save_results chr_index positions_all snp_idx maf r = Inl IndexError"
    "save_results_nc chr_index positions_all snp_idx maf r' = Inl IndexError"
  using assms by (simp_all add: save_results_def save_results_nc_def take_idx_def)

text \<open>
  Claim C7, as amended. When every retained SNP index has a position and each scan
  returns one p-value and one effect size per retained SNP, each of the two written
  tables starts with the header line chr, pos, pvalue, maf, GVE (the effect size is in the
  column named GVE), has no index column, and has one line per retained SNP in the order of
  the retained index list: chromosome, position, p-value, frequency and effect size of
  that SNP.
\<close>

theorem result_table_schema:
  assumes pos: "\<forall>i\<in>set snp_idx. i < length positions_all"
    and lm: "length maf = length snp_idx"
    and lr: "length (fst r) = length snp_idx" "length (snd r) = length snp_idx"
    and lr_nc: "length (fst r_nc) = length snp_idx" "length (snd r_nc) = length snp_idx"
  shows "\<exists>body body_nc.
           save_results chr_index positions_all snp_idx maf r =
             Inr (map StrCell [''chr'', ''pos'', ''pvalue'', ''maf'', ''GVE''] # body) \<and>
           save_results_nc chr_index positions_all snp_idx maf r_nc =
             Inr (map StrCell [''chr'', ''pos'', ''pvalue'', ''maf'', ''GVE''] # body_nc) \<and>
           length body = length snp_idx \<and> length body_nc = length snp_idx \<and>
           (\<forall>i<length snp_idx.
              body ! i =
                [IntCell (int (chromosome chr_index (snp_idx ! i))),
                 IntCell (positions_all ! (snp_idx ! i)),
                 FloatCell (fst r ! i), FloatCell (maf ! i), FloatCell (snd r ! i)] \<and>
              body_nc ! i =
                [IntCell (int (chromosome chr_index (snp_idx ! i))),
                 IntCell (positions_all ! (snp_idx ! i)),
                 FloatCell (fst r_nc ! i), FloatCell (maf ! i), FloatCell (snd r_nc ! i)])"
proof -
  define cs where "cs = chromosomes chr_index snp_idx"
  define ps where "ps = map (\<lambda>i. positions_all ! i) snp_idx"
  define body where "body = zip5 cs ps (fst r) maf (snd r)"
  define body_nc where "body_nc = zip5 cs ps (fst r_nc) maf (snd r_nc)"
  have all: "list_all (\<lambda>i. i < length positions_all) snp_idx"
    using pos by (simp add: list_all_iff)
  have len: "length cs = length snp_idx" "length ps = length snp_idx"
    by (simp_all add: cs_def ps_def chromosomes_def)
  have run: "save_results chr_index positions_all snp_idx maf r =
      Inr (map StrCell [''chr'', ''pos'', ''pvalue'', ''maf'', ''GVE''] # body)"
    unfolding body_def cs_def ps_def by (rule save_results_Inr[OF all])
  have run_nc: "save_results_nc chr_index positions_all snp_idx maf r_nc =
      Inr (map StrCell [''chr'', ''pos'', ''pvalue'', ''maf'', ''GVE''] # body_nc)"
    unfolding body_nc_def cs_def ps_def by (rule save_results_nc_Inr[OF all])
  have lb: "length body = length snp_idx" "length body_nc = length snp_idx"
    using len lm lr lr_nc by (simp_all add: body_def body_nc_def zip5_length)
  have rows: "\<forall>i<length snp_idx.
      body ! i =
        [IntCell (int (chromosome chr_index (snp_idx ! i))),
         IntCell (positions_all ! (snp_idx ! i)),
         FloatCell (fst r ! i), FloatCell (maf ! i), FloatCell (snd r ! i)] \<and>
      body_nc ! i =
        [IntCell (int (chromosome chr_index (snp_idx ! i))),
         IntCell (positions_all ! (snp_idx ! i)),
         FloatCell (fst r_nc ! i), FloatCell (maf ! i), FloatCell (snd r_nc ! i)]"
  proof (intro allI impI)
    fix i assume i: "i < length snp_idx"
    then have "i < length body" "i < length body_nc" using lb by simp_all
    then have "body ! i = [IntCell (int (cs ! i)), IntCell (ps ! i), FloatCell (fst r ! i),
        FloatCell (maf ! i), FloatCell (snd r ! i)]"
      and "body_nc ! i = [IntCell (int (cs ! i)), IntCell (ps ! i), FloatCell (fst r_nc ! i),
        FloatCell (maf ! i), FloatCell (snd r_nc ! i)]"
      unfolding body_def body_nc_def by (simp_all only: zip5_nth)
    moreover have "cs ! i = chromosome chr_index (snp_idx ! i)" "ps ! i = positions_all ! (snp_idx ! i)"
      using i by (simp_all add: cs_def ps_def chromosomes_def)
    ultimately show "body ! i =
        [IntCell (int (chromosome chr_index (snp_idx ! i))),
         IntCell (positions_all ! (snp_idx ! i)),
         FloatCell (fst r ! i), FloatCell (maf ! i), FloatCell (snd r ! i)] \<and>
      body_nc ! i =
        [IntCell (int (chromosome chr_index (snp_idx ! i))),
         IntCell (positions_all ! (snp_idx ! i)),
         FloatCell (fst r_nc ! i), FloatCell (maf ! i), FloatCell (snd r_nc ! i)]"
      by simp
  qed
  show ?thesis
    apply (rule exI[of _ body])
    apply (rule exI[of _ body_nc])
    apply (intro conjI)
        apply (fact run run_nc lb rows)+
    done
qed

theorem result_table_schema_witness:
  "save_results example_chr_regions example_positions [2, 3] [Fl (1 / 3), Fl (1 / 3)] example_r =
     Inr [map StrCell [''chr'', ''pos'', ''pvalue'', ''maf'', ''GVE''],
          [IntCell 1, IntCell 300, FloatCell (Fl (1 / 2)), FloatCell (Fl (1 / 3)), FloatCell (Fl 2)],
          [IntCell 1, IntCell 400, FloatCell (Fl (1 / 4)), FloatCell (Fl (1 / 3)), FloatCell (Fl (- 1))]] \<and>
   length (fst example_r) = length [2, 3 :: nat]"
proof -
  have pos: "\<forall>i\<in>set [2, 3]. i < length example_positions" by (simp add: example_positions_def)
  have lm: "length [Fl (1 / 3), Fl (1 / 3)] = length [2, 3 :: nat]" by simp
  have lr: "length (fst example_r) = length [2, 3 :: nat]" "length (snd example_r) = length [2, 3 :: nat]"
    "length (fst example_r_nc) = length [2, 3 :: nat]" "length (snd example_r_nc) = length [2, 3 :: nat]"
    by (simp_all add: example_r_def example_r_nc_def)
  from result_table_schema[OF pos lm lr, of example_chr_regions] obtain body body_nc where
    run: "save_results example_chr_regions example_positions [2, 3] [Fl (1 / 3), Fl (1 / 3)] example_r =
       Inr (map StrCell [''chr'', ''pos'', ''pvalue'', ''maf'', ''GVE''] # body)"
    and len: "length body = length [2, 3 :: nat]"
    and rows: "\<forall>i<length [2, 3 :: nat]. body ! i =
        [IntCell (int (chromosome example_chr_regions ([2, 3] ! i))),
         IntCell (example_positions ! ([2, 3] ! i)),
         FloatCell (fst example_r ! i), FloatCell ([Fl (1 / 3), Fl (1 / 3)] ! i),
         FloatCell (snd example_r ! i)] \<and>
        body_nc ! i =
        [IntCell (int (chromosome example_chr_regions ([2, 3] ! i))),
         IntCell (example_positions ! ([2, 3] ! i)),
         FloatCell (fst example_r_nc ! i), FloatCell ([Fl (1 / 3), Fl (1 / 3)] ! i),
         FloatCell (snd example_r_nc ! i)]"
    by (elim exE conjE) (rule that; assumption)
  have c: "chromosome example_chr_regions 2 = 1" "chromosome example_chr_regions 3 = 1"
    by code_simp+
  from rows have "body ! 0 = [IntCell 1, IntCell 300, FloatCell (Fl (1 / 2)), FloatCell (Fl (1 / 3)), FloatCell (Fl 2)]"
    and "body ! 1 = [IntCell 1, IntCell 400, FloatCell (Fl (1 / 4)), FloatCell (Fl (1 / 3)), FloatCell (Fl (- 1))]"
    by (simp_all add: c example_positions_def example_r_def)
  with len have "body = [[IntCell 1, IntCell 300, FloatCell (Fl (1 / 2)), FloatCell (Fl (1 / 3)), FloatCell (Fl 2)],
     [IntCell 1, IntCell 400, FloatCell (Fl (1 / 4)), FloatCell (Fl (1 / 3)), FloatCell (Fl (- 1))]]"
    by (auto simp: list_eq_iff_nth_eq less_Suc_eq)
  with run lr(1) show ?thesis by simp
qed

text \<open>
  The fifth column of the written table is named GVE, not effect\_size as the
  specification lists it.
\<close>

theorem result_table_header_counterexample:
  "map_sum id hd
     (save_results example_chr_regions example_positions [2, 3] [Fl (1 / 3), Fl (1 / 3)] example_r) =
     Inr [StrCell ''chr'', StrCell ''pos'', StrCell ''pvalue'', StrCell ''maf'', StrCell ''GVE''] \<and>
   [StrCell ''chr'', StrCell ''pos'', StrCell ''pvalue'', StrCell ''maf'', StrCell ''GVE''] \<noteq>
     map StrCell spec_columns"
  by (simp add: save_results_def take_idx_def to_csv_def example_positions_def spec_columns_def)

lemma zip5_columns_agree:
  assumes "min (length vs) (length es) = min (length vs') (length es')"
  shows "csv_columns [0, 1, 3] (zip5 cs ps vs ms es) = csv_columns [0, 1, 3] (zip5 cs ps vs' ms es')"
proof (rule nth_equalityI)
  have l: "length (zip5 cs ps vs ms es) = length (zip5 cs ps vs' ms es')"
    using assms by (simp add: zip5_length) arith
  then show "length (csv_columns [0, 1, 3] (zip5 cs ps vs ms es)) =
      length (csv_columns [0, 1, 3] (zip5 cs ps vs' ms es'))"
    by (simp add: csv_columns_def)
  fix i assume "i < length (csv_columns [0, 1, 3] (zip5 cs ps vs ms es))"
  then have i: "i < length (zip5 cs ps vs ms es)" "i < length (zip5 cs ps vs' ms es')"
    using l by (simp_all add: csv_columns_def)
  then show "csv_columns [0, 1, 3] (zip5 cs ps vs ms es) ! i =
      csv_columns [0, 1, 3] (zip5 cs ps vs' ms es') ! i"
    by (simp add: csv_columns_def zip5_nth)
qed

text \<open>Cells 5b and 5d on equally many scan results: the same chr, pos and maf columns, or
  the same exception.\<close>

lemma writers_agree:
  assumes "min (length (fst r)) (length (snd r)) = min (length (fst r_nc)) (length (snd r_nc))"
  shows "map_sum id (csv_columns [0, 1, 3]) (save_results chr_index positions_all snp_idx maf r) =
         map_sum id (csv_columns [0, 1, 3])
           (save_results_nc chr_index positions_all snp_idx maf r_nc)"
proof (cases "list_all (\<lambda>i. i < length positions_all) snp_idx")
  case True
  have split: "csv_columns js (h # b) = map (\<lambda>j. h ! j) js # csv_columns js b"
    for js and h :: "cell list" and b
    by (simp add: csv_columns_def)
  show ?thesis
    unfolding save_results_Inr[OF True] save_results_nc_Inr[OF True]
    by (simp only: map_sum.simps id_apply split
        zip5_columns_agree[OF assms, of "chromosomes chr_index snp_idx"
          "map (\<lambda>i. positions_all ! i) snp_idx" maf])
next
  case False
  then show ?thesis by (simp add: save_results_Inl)
qed

text \<open>What the scan returns has one p-value and one effect size per column of G.\<close>

lemma scan_lengths:
  assumes "scan stats G Y K = Inr r"
  shows "length (fst r) = shape1 G" "length (snd r) = shape1 G"
  using assms by (auto simp: scan_def split: if_splits sum.splits)

lemma scan_empty: "shape0 G = 0 \<or> shape1 G = 0 \<Longrightarrow> scan stats G Y K = Inl ScanError"
  by (simp add: scan_def)

text \<open>
  Claim C8. In every run that writes both result files, the file of the corrected scan and
  the file of the uncorrected scan have the same number of lines and the same chr, pos and
  maf columns (header included): cells 5b and 5d compute them from the same retained SNP
  index list and frequencies, and each scan gives one result per retained SNP. Only the
  pvalue and GVE columns depend on the scan.
\<close>

theorem outputs_share_chr_pos_maf:
  assumes "run_gwas stats thr src = ([(output_file, csv), (output_file_nc, csv_nc)], None)"
  shows "csv_columns [0, 1, 3] csv = csv_columns [0, 1, 3] csv_nc \<and> length csv = length csv_nc"
proof -
  obtain m where m: "prepare thr src = Inr m"
    using assms by (cases "prepare thr src") (simp_all add: run_gwas_def)
  obtain r where r: "scan stats (m_G m) (m_Y m) (Some (m_K m)) = Inr r"
    using assms m
    by (cases "scan stats (m_G m) (m_Y m) (Some (m_K m))") (simp_all add: run_gwas_def)
  obtain c where c: "save_results (geno_chr_regions src) (geno_positions src) (m_SNP_indices m)
        (m_SNPs_MAF m) r = Inr c"
    using assms m r
    by (cases "save_results (geno_chr_regions src) (geno_positions src) (m_SNP_indices m)
        (m_SNPs_MAF m) r") (simp_all add: run_gwas_def)
  obtain r_nc where r_nc: "scan stats (m_G m) (m_Y m) None = Inr r_nc"
    using assms m r c
    by (cases "scan stats (m_G m) (m_Y m) None") (simp_all add: run_gwas_def)
  obtain c_nc where c_nc: "save_results_nc (geno_chr_regions src) (geno_positions src)
        (m_SNP_indices m) (m_SNPs_MAF m) r_nc = Inr c_nc"
    using assms m r c r_nc
    by (cases "save_results_nc (geno_chr_regions src) (geno_positions src) (m_SNP_indices m)
        (m_SNPs_MAF m) r_nc") (simp_all add: run_gwas_def)
  from assms m r c r_nc c_nc have "c = csv" "c_nc = csv_nc" by (simp_all add: run_gwas_def)
  with c c_nc have w: "save_results (geno_chr_regions src) (geno_positions src)
        (m_SNP_indices m) (m_SNPs_MAF m) r = Inr csv"
    and w_nc: "save_results_nc (geno_chr_regions src) (geno_positions src) (m_SNP_indices m)
        (m_SNPs_MAF m) r_nc = Inr csv_nc"
    by simp_all
  have "min (length (fst r)) (length (snd r)) = min (length (fst r_nc)) (length (snd r_nc))"
    using scan_lengths[OF r] scan_lengths[OF r_nc] by simp
  from writers_agree[OF this, of "geno_chr_regions src" "geno_positions src" "m_SNP_indices m"
      "m_SNPs_MAF m"]
  have cols: "csv_columns [0, 1, 3] csv = csv_columns [0, 1, 3] csv_nc"
    by (simp add: w w_nc)
  then have "length (csv_columns [0, 1, 3] csv) = length (csv_columns [0, 1, 3] csv_nc)"
    by simp
  then have "length csv = length csv_nc" by (simp add: csv_columns_def)
  with cols show ?thesis by simp
qed

lemma true_divide_values:
  "true_divide 0 (Suc (Suc 0)) = Fl 0" "true_divide 1 (Suc (Suc 0)) = Fl (1 / 2)"
  by code_simp+

lemma prepare_example:
  "prepare MAF_thrs example_sources =
    Inr \<lparr>m_order = [''B'', ''D''], m_geno_indices = [0, 2], m_kin_indices = [1, 3],
         m_Y = Array2 2 1 [[Num 2], [Num 4]],
         m_G = Array2 2 1 [[0], [1]], m_K = Array2 2 2 [[6, 8], [8, 13]],
         m_SNP_indices = [0], m_SNPs_MAF = [Fl (1 / 2)]\<rparr>"
  by (simp add: prepare_def example_sources_def dropna_def cell_3a_def loc_def
      acn_genotyped_def acn_indices_def where_first_def h5_take_idx_def take_idx_def
      to_numpy_def h5_take_cols_def take_cols_def cell_3b_def SNP_indices_def SNPs_MAF_def
      MAF_def MAC_def AC0_def AC1_def true_divide_values MAF_thrs_value take_rows_def
      transpose_array_def cell_3c_def subset_kinship_def h5_take_rows_def)

theorem outputs_share_chr_pos_maf_witness:
  "run_gwas example_stats MAF_thrs example_sources =
     ([(output_file,
        [[StrCell ''chr'', StrCell ''pos'', StrCell ''pvalue'', StrCell ''maf'', StrCell ''GVE''],
         [IntCell 1, IntCell 100, FloatCell (Fl (1 / 2)), FloatCell (Fl (1 / 2)),
          FloatCell (Fl 2)]]),
       (output_file_nc,
        [[StrCell ''chr'', StrCell ''pos'', StrCell ''pvalue'', StrCell ''maf'', StrCell ''GVE''],
         [IntCell 1, IntCell 100, FloatCell (Fl (1 / 8)), FloatCell (Fl (1 / 2)),
          FloatCell (Fl 3)]])], None) \<and>
   csv_columns [0, 1, 3]
     [[StrCell ''chr'', StrCell ''pos'', StrCell ''pvalue'', StrCell ''maf'', StrCell ''GVE''],
      [IntCell 1, IntCell 100, FloatCell (Fl (1 / 8)), FloatCell (Fl (1 / 2)), FloatCell (Fl 3)]] =
   [[StrCell ''chr'', StrCell ''pos'', StrCell ''maf''],
    [IntCell 1, IntCell 100, FloatCell (Fl (1 / 2))]]"
proof -
  have c: "chromosomes [(0, 2)] [0] = [1]" by code_simp
  have src: "geno_chr_regions example_sources = [(0, 2)]"
    "geno_positions example_sources = [100, 200]"
    by (simp_all add: example_sources_def)
  have run: "run_gwas example_stats MAF_thrs example_sources =
     ([(output_file,
        [[StrCell ''chr'', StrCell ''pos'', StrCell ''pvalue'', StrCell ''maf'', StrCell ''GVE''],
         [IntCell 1, IntCell 100, FloatCell (Fl (1 / 2)), FloatCell (Fl (1 / 2)),
          FloatCell (Fl 2)]]),
       (output_file_nc,
        [[StrCell ''chr'', StrCell ''pos'', StrCell ''pvalue'', StrCell ''maf'', StrCell ''GVE''],
         [IntCell 1, IntCell 100, FloatCell (Fl (1 / 8)), FloatCell (Fl (1 / 2)),
          FloatCell (Fl 3)]])], None)"
    by (simp add: run_gwas_def prepare_example scan_def example_stats_def save_results_def
        save_results_nc_def take_idx_def to_csv_def c src)
  have "csv_columns [0, 1, 3]
     [[StrCell ''chr'', StrCell ''pos'', StrCell ''pvalue'', StrCell ''maf'', StrCell ''GVE''],
      [IntCell 1, IntCell 100, FloatCell (Fl (1 / 2)), FloatCell (Fl (1 / 2)), FloatCell (Fl 2)]] =
   [[StrCell ''chr'', StrCell ''pos'', StrCell ''maf''],
    [IntCell 1, IntCell 100, FloatCell (Fl (1 / 2))]]"
    by (simp add: csv_columns_def)
  with outputs_share_chr_pos_maf[OF run] run show ?thesis by simp
qed

subsection \<open>Runs with nothing to test\<close>





lemma run_gwas_empty_G:
  assumes "prepare thr src = Inr m" "shape0 (m_G m) = 0 \<or> shape1 (m_G m) = 0"
  shows "run_gwas stats thr src = ([], Some ScanError)"
  using assms by (simp add: run_gwas_def scan_empty)



lemma prepare_G_shape:
  assumes "prepare thr src = Inr m"
  shows "shape0 (m_G m) = length (m_order m)" "shape1 (m_G m) = length (m_SNP_indices m)"
proof -
  from assms obtain a G b where
    a: "cell_3a (dropna (pheno_table src)) (geno_accessions src) = Inr a"
    and G: "h5_take_cols (geno_snps src) (geno_indices a) = Inr G"
    and b: "cell_3b G thr = Inr b"
    and m: "m_order m = acn_order a" "m_G m = G_matrix b" "m_SNP_indices m = snp_indices b"
    by (auto simp: prepare_def split: sum.splits)
  have "length (acn_order a) = length (geno_indices a)"
    using a by (auto simp: cell_3a_def h5_take_idx_def take_idx_def split: sum.splits if_splits)
  moreover have "shape1 G = length (geno_indices a)"
    using G by (auto simp: h5_take_cols_def take_cols_def split: if_splits)
  moreover have "shape0 (G_matrix b) = shape1 G" "shape1 (G_matrix b) = length (snp_indices b)"
    using b by (auto simp: cell_3b_def take_rows_def transpose_array_def split: if_splits)
  ultimately show "shape0 (m_G m) = length (m_order m)"
    "shape1 (m_G m) = length (m_SNP_indices m)"
    using m by simp_all
qed

text \<open>
  Claim C6. When the cells up to the first scan succeed and the threshold excludes every
  SNP, G has one row per aligned accession and no column. The association step cannot run
  on this empty genotype matrix, so the run ends with its exception and no result file is
  written, an empty one included.
\<close>

theorem empty_filter_aborts:
  assumes "prepare thr src = Inr m" and "m_SNP_indices m = []"
  shows "shape0 (m_G m) = length (m_order m) \<and> shape1 (m_G m) = 0 \<and>
         run_gwas stats thr src = ([], Some ScanError)"
proof -
  have cols: "shape1 (m_G m) = 0" using prepare_G_shape(2)[OF assms(1)] assms(2) by simp
  then have "run_gwas stats thr src = ([], Some ScanError)"
    using run_gwas_empty_G[OF assms(1)] by simp
  with cols prepare_G_shape(1)[OF assms(1)] show ?thesis by simp
qed

lemma prepare_monomorphic:
  "prepare MAF_thrs monomorphic_sources =
    Inr \<lparr>m_order = [''A'', ''B''], m_geno_indices = [0, 1], m_kin_indices = [0, 1],
         m_Y = Array2 2 1 [[Num 1], [Num 2]],
         m_G = Array2 2 0 [[], []], m_K = Array2 2 2 [[1, 1 / 2], [1 / 2, 1]],
         m_SNP_indices = [], m_SNPs_MAF = []\<rparr>"
  by (simp add: prepare_def monomorphic_sources_def dropna_def cell_3a_def loc_def
      acn_genotyped_def acn_indices_def where_first_def h5_take_idx_def take_idx_def
      to_numpy_def h5_take_cols_def take_cols_def cell_3b_def SNP_indices_def SNPs_MAF_def
      MAF_def MAC_def AC0_def AC1_def true_divide_values MAF_thrs_value take_rows_def
      transpose_array_def cell_3c_def subset_kinship_def h5_take_rows_def)

theorem empty_filter_aborts_witness:
  "map_sum id m_SNP_indices (prepare MAF_thrs monomorphic_sources) = Inr [] \<and>
   map_sum id m_G (prepare MAF_thrs monomorphic_sources) = Inr (Array2 2 0 [[], []]) \<and>
   run_gwas example_stats MAF_thrs monomorphic_sources = ([], Some ScanError)"
proof -
  note p = prepare_monomorphic
  have "run_gwas example_stats MAF_thrs monomorphic_sources = ([], Some ScanError)"
    using empty_filter_aborts[OF p, of example_stats] by simp
  then show ?thesis by (simp add: p)
qed

subsection \<open>Evaluations at inputs where the notebook departs from its stated aims\<close>

text \<open>
  Claim C1 at a kinship file whose accession order differs from the genotype file's:
  the rows of Y and G follow the accession order A, B, the rows and columns of K follow
  B, A, because cell 3c sorts the kinship positions.
\<close>

theorem kinship_rows_misaligned:
  "map_sum id
     (\<lambda>m. (m_order m, data (m_Y m), data (m_G m),
           map (\<lambda>i. kin_accessions swapped_sources ! i) (m_kin_indices m), data (m_K m)))
     (prepare MAF_thrs swapped_sources) =
   Inr ([''A'', ''B''], [[Num 1], [Num 2]], [[0], [1]], [''B'', ''A''], [[10, 5], [5, 20]])"
  by (simp add: prepare_def swapped_sources_def dropna_def cell_3a_def loc_def
      acn_genotyped_def acn_indices_def where_first_def h5_take_idx_def take_idx_def
      to_numpy_def h5_take_cols_def take_cols_def cell_3b_def SNP_indices_def SNPs_MAF_def
      MAF_def MAC_def AC0_def AC1_def true_divide_values MAF_thrs_value take_rows_def
      transpose_array_def cell_3c_def subset_kinship_def h5_take_rows_def)

text \<open>
  Claim C9 at a phenotype table with a text value: \<open>dropna\<close> removes the row with the
  missing value and keeps the row whose value is not a number.
\<close>

theorem dropna_keeps_text:
  "dropna [(1 :: nat, Num 5), (2, Text ''n.d.''), (3, NA)] = [(1, Num 5), (2, Text ''n.d.'')]"
  by (simp add: dropna_def)

subsection \<open>The aligned triple\<close>

lemma cell_3b_result:
  assumes ws: "well_shaped G"
  shows "\<exists>v. cell_3b G thr = Inr v \<and> snp_indices v = SNP_indices G thr \<and>
           snps_maf v = SNPs_MAF G thr \<and>
           shape0 (G_matrix v) = shape1 G \<and> shape1 (G_matrix v) = length (snp_indices v) \<and>
           (\<forall>a<shape1 G. \<forall>j<length (snp_indices v).
              entry (G_matrix v) a j = entry G (snp_indices v ! j) a)"
proof -
  have len: "length (data G) = shape0 G" using ws by (simp add: well_shaped_def)
  define idx where "idx = SNP_indices G thr"
  define G' where "G' = Array2 (length idx) (shape1 G) (map (\<lambda>i. data G ! i) idx)"
  define v where "v = \<lparr>G_matrix = transpose_array G', snp_indices = idx, snps_maf = SNPs_MAF G thr\<rparr>"
  have "\<And>i. i \<in> set idx \<Longrightarrow> i < shape0 G"
    using SNP_indices_bound[of _ G thr] len by (simp add: idx_def)
  then have "list_all (\<lambda>i. i < shape0 G) idx" by (simp add: list_all_iff)
  then have run: "cell_3b G thr = Inr v"
    by (simp add: cell_3b_def take_rows_def idx_def[symmetric] G'_def v_def)
  have rest: "snp_indices v = SNP_indices G thr" "snps_maf v = SNPs_MAF G thr"
    "shape0 (G_matrix v) = shape1 G" "shape1 (G_matrix v) = length (snp_indices v)"
    by (simp_all add: v_def idx_def transpose_array_def G'_def)
  have ent: "\<forall>a<shape1 G. \<forall>j<length (snp_indices v).
      entry (G_matrix v) a j = entry G (snp_indices v ! j) a"
    by (simp add: v_def transpose_array_def G'_def entry_def)
  show ?thesis
    apply (rule exI[of _ v])
    apply (intro conjI)
         apply (fact run rest ent)+
    done
qed

lemma cell_3c_result:
  assumes dk: "distinct accessions" and dl: "distinct (map fst pheno)"
    and sub: "fst ` set pheno \<subseteq> set accessions"
    and sh: "shape0 kinship = length accessions" "shape1 kinship = length accessions"
  shows "\<exists>c. cell_3c pheno accessions kinship = Inr c \<and>
           map (\<lambda>i. accessions ! i) (kin_indices c) =
             filter (\<lambda>a. a \<in> fst ` set pheno) accessions \<and>
           shape0 (K_matrix c) = length (kin_indices c) \<and>
           shape1 (K_matrix c) = length (kin_indices c) \<and>
           (\<forall>i<length (kin_indices c). \<forall>j<length (kin_indices c).
              entry (K_matrix c) i j = entry kinship (kin_indices c ! i) (kin_indices c ! j))"
proof -
  define labels where "labels = map fst pheno"
  define idx where "idx = filter (\<lambda>i. accessions ! i \<in> set labels) [0..<length accessions]"
  define K where "K = Array2 (length idx) (length idx)
      (map (\<lambda>r. map (\<lambda>j. r ! j) idx) (map (\<lambda>i. data kinship ! i) idx))"
  have sub': "set labels \<subseteq> set accessions" using sub by (simp add: labels_def)
  have ai: "acn_indices accessions (map fst pheno) = Inr idx"
    using sorted_indices_filter[OF dk dl[folded labels_def] sub'] acn_indices_in[OF sub']
    by (simp add: labels_def idx_def)
  have "list_all (\<lambda>i. i < length accessions) idx" by (simp add: idx_def list_all_iff)
  moreover have "sorted_wrt (<) idx" by (simp add: idx_def sorted_wrt_filter)
  ultimately have sk: "subset_kinship kinship idx = Inr K"
    by (simp add: subset_kinship_def h5_take_rows_def take_rows_def take_cols_def sh K_def)
  have run: "cell_3c pheno accessions kinship = Inr \<lparr>kin_indices = idx, K_matrix = K\<rparr>"
    by (simp add: cell_3c_def ai sk)
  have "map (\<lambda>i. accessions ! i) idx = filter (\<lambda>a. a \<in> set labels) accessions"
    unfolding idx_def by (rule map_nth_filter)
  then have lab: "map (\<lambda>i. accessions ! i) idx = filter (\<lambda>a. a \<in> fst ` set pheno) accessions"
    by (simp add: labels_def)
  have ent: "\<forall>i<length idx. \<forall>j<length idx. entry K i j = entry kinship (idx ! i) (idx ! j)"
    by (simp add: K_def entry_def)
  show ?thesis
    apply (rule exI[of _ "\<lparr>kin_indices = idx, K_matrix = K\<rparr>"])
    using run lab ent by (simp add: K_def)
qed

text \<open>
  The invariant of claim C1 under one more condition. When no source repeats an accession
  and the kinship file lists the accessions that are both phenotyped and genotyped in the
  same relative order as the genotype file, sections 2 and 3 succeed and Y, G and K are
  aligned on one ordered list, the genotyped accessions that have a phenotype in
  genotype-file order: Y is N by 1, G is N by M, K is N by N, row \<open>i\<close> of Y holds the phenotype
  of the \<open>i\<close>-th accession, row \<open>i\<close> of G its calls at the retained SNPs, and row and
  column \<open>i\<close> of K its kinship entries.
\<close>

theorem aligned_triple_when_orders_agree:
  assumes dp: "distinct (map fst (dropna (pheno_table src)))"
    and dg: "distinct (geno_accessions src)"
    and dk: "distinct (kin_accessions src)"
    and ord: "filter (\<lambda>a. a \<in> fst ` set (dropna (pheno_table src)) \<and> a \<in> set (geno_accessions src))
                (kin_accessions src) =
              filter (\<lambda>a. a \<in> fst ` set (dropna (pheno_table src))) (geno_accessions src)"
    and snps: "well_shaped (geno_snps src)"
      "shape1 (geno_snps src) = length (geno_accessions src)"
    and kin: "shape0 (kin_kinship src) = length (kin_accessions src)"
      "shape1 (kin_kinship src) = length (kin_accessions src)"
  shows "\<exists>m. prepare thr src = Inr m \<and>
           m_order m =
             filter (\<lambda>a. a \<in> fst ` set (dropna (pheno_table src))) (geno_accessions src) \<and>
           map (\<lambda>i. geno_accessions src ! i) (m_geno_indices m) = m_order m \<and>
           map (\<lambda>i. kin_accessions src ! i) (m_kin_indices m) = m_order m \<and>
           shape0 (m_Y m) = length (m_order m) \<and> shape1 (m_Y m) = 1 \<and>
           shape0 (m_G m) = length (m_order m) \<and>
           shape1 (m_G m) = length (m_SNP_indices m) \<and>
           shape0 (m_K m) = length (m_order m) \<and> shape1 (m_K m) = length (m_order m) \<and>
           (\<forall>i<length (m_order m).
              (m_order m ! i, entry (m_Y m) i 0) \<in> set (dropna (pheno_table src))) \<and>
           (\<forall>i<length (m_order m). \<forall>j<length (m_SNP_indices m).
              entry (m_G m) i j =
                entry (geno_snps src) (m_SNP_indices m ! j) (m_geno_indices m ! i)) \<and>
           (\<forall>i<length (m_order m). \<forall>j<length (m_order m).
              entry (m_K m) i j =
                entry (kin_kinship src) (m_kin_indices m ! i) (m_kin_indices m ! j))"
proof -
  define pheno where "pheno = dropna (pheno_table src)"
  define G where "G = geno_accessions src"
  define order where "order = filter (\<lambda>a. a \<in> fst ` set pheno) G"
  define gi where "gi = filter (\<lambda>i. G ! i \<in> fst ` set pheno) [0..<length G]"
  from cell_3a_result[OF dp dg] obtain a where
    a0: "cell_3a (dropna (pheno_table src)) (geno_accessions src) = Inr a"
      "acn_order a =
         filter (\<lambda>acn. acn \<in> fst ` set (dropna (pheno_table src))) (geno_accessions src)"
      "geno_indices a =
         filter (\<lambda>i. geno_accessions src ! i \<in> fst ` set (dropna (pheno_table src)))
           [0..<length (geno_accessions src)]"
      "map fst (pheno_aligned a) = acn_order a"
      "set (pheno_aligned a) \<subseteq> set (dropna (pheno_table src))"
      "Y_matrix a = to_numpy (pheno_aligned a)"
    by (elim exE conjE) (rule that; assumption)
  have a: "cell_3a pheno G = Inr a" "acn_order a = order" "geno_indices a = gi"
      "map fst (pheno_aligned a) = order" "set (pheno_aligned a) \<subseteq> set pheno"
      "Y_matrix a = to_numpy (pheno_aligned a)"
    using a0 by (simp_all add: pheno_def G_def order_def gi_def)
  have gi_order: "map (\<lambda>i. G ! i) gi = order"
    unfolding gi_def order_def by (rule map_nth_filter)
  then have len_gi: "length gi = length order" by (metis length_map)
  have len_pa: "length (pheno_aligned a) = length order" using a(4) by (metis length_map)
  \<comment> \<open>the genotype read\<close>
  define Gm where "Gm = Array2 (shape0 (geno_snps src)) (length gi)
      (map (\<lambda>r. map (\<lambda>j. r ! j) gi) (data (geno_snps src)))"
  have "list_all (\<lambda>j. j < shape1 (geno_snps src)) gi"
    by (simp add: snps(2) gi_def G_def list_all_iff)
  moreover have "sorted_wrt (<) gi" by (simp add: gi_def sorted_wrt_filter)
  ultimately have tc: "h5_take_cols (geno_snps src) gi = Inr Gm"
    by (simp add: h5_take_cols_def take_cols_def Gm_def)
  have ws: "well_shaped Gm"
    using snps(1) by (simp add: Gm_def well_shaped_def list_all_iff)
  from cell_3b_result[OF ws, of thr] obtain v where
    v: "cell_3b Gm thr = Inr v" "snp_indices v = SNP_indices Gm thr"
      "shape0 (G_matrix v) = shape1 Gm" "shape1 (G_matrix v) = length (snp_indices v)"
      "\<forall>a<shape1 Gm. \<forall>j<length (snp_indices v).
          entry (G_matrix v) a j = entry Gm (snp_indices v ! j) a"
    by (elim exE conjE) (rule that; assumption)
  have entG: "entry (G_matrix v) i j = entry (geno_snps src) (snp_indices v ! j) (gi ! i)"
    if "i < length order" "j < length (snp_indices v)" for i j
  proof -
    have "snp_indices v ! j \<in> set (SNP_indices Gm thr)" using that(2) v(2) by simp
    then have "snp_indices v ! j < length (data (geno_snps src))"
      using SNP_indices_bound[of _ Gm thr] by (simp add: Gm_def)
    moreover have "i < length gi" using that(1) len_gi by simp
    moreover have "entry (G_matrix v) i j = entry Gm (snp_indices v ! j) i"
      using v(5) that len_gi by (simp add: Gm_def)
    ultimately show ?thesis by (simp add: Gm_def entry_def)
  qed
  \<comment> \<open>the kinship read\<close>
  have set_order: "fst ` set (pheno_aligned a) = set order" using a(4) by (metis list.set_map)
  have ord': "filter (\<lambda>a. a \<in> set order) (kin_accessions src) = order"
  proof -
    have "filter (\<lambda>a. a \<in> set order) (kin_accessions src) =
        filter (\<lambda>a. a \<in> fst ` set pheno \<and> a \<in> set G) (kin_accessions src)"
      by (rule filter_cong) (auto simp: order_def)
    also have "\<dots> = order" using ord by (simp add: pheno_def G_def order_def)
    finally show ?thesis .
  qed
  have "set order \<subseteq> set (kin_accessions src)"
  proof
    fix x assume "x \<in> set order"
    then have "x \<in> set (filter (\<lambda>a. a \<in> set order) (kin_accessions src))" by (simp only: ord')
    then show "x \<in> set (kin_accessions src)" by simp
  qed
  then have sub: "fst ` set (pheno_aligned a) \<subseteq> set (kin_accessions src)"
    by (simp only: set_order)
  have dl: "distinct (map fst (pheno_aligned a))"
    using a(4) dg by (simp add: order_def G_def)
  from cell_3c_result[OF dk dl sub kin] obtain c where
    c: "cell_3c (pheno_aligned a) (kin_accessions src) (kin_kinship src) = Inr c"
      "map (\<lambda>i. kin_accessions src ! i) (kin_indices c) =
         filter (\<lambda>a'. a' \<in> fst ` set (pheno_aligned a)) (kin_accessions src)"
      "shape0 (K_matrix c) = length (kin_indices c)"
      "shape1 (K_matrix c) = length (kin_indices c)"
      "\<forall>i<length (kin_indices c). \<forall>j<length (kin_indices c).
          entry (K_matrix c) i j = entry (kin_kinship src) (kin_indices c ! i) (kin_indices c ! j)"
    by (elim exE conjE) (rule that; assumption)
  have ki_order: "map (\<lambda>i. kin_accessions src ! i) (kin_indices c) = order"
    using c(2) ord' by (simp only: set_order)
  then have len_ki: "length (kin_indices c) = length order" by (metis length_map)
  \<comment> \<open>the phenotype matrix\<close>
  have entY: "(order ! i, entry (Y_matrix a) i 0) \<in> set pheno" if "i < length order" for i
  proof -
    have i: "i < length (pheno_aligned a)" using that len_pa by simp
    then have "order ! i = fst (pheno_aligned a ! i)" using a(4) by (metis nth_map)
    moreover have "entry (Y_matrix a) i 0 = snd (pheno_aligned a ! i)"
      using i by (simp add: a(6) to_numpy_def entry_def)
    moreover have "pheno_aligned a ! i \<in> set pheno" using i a(5) by auto
    ultimately show ?thesis by simp
  qed
  define m where "m = \<lparr>m_order = acn_order a, m_geno_indices = geno_indices a,
      m_kin_indices = kin_indices c, m_Y = Y_matrix a, m_G = G_matrix v,
      m_K = K_matrix c, m_SNP_indices = snp_indices v, m_SNPs_MAF = snps_maf v\<rparr>"
  have run: "prepare thr src = Inr m"
    using a(1) tc v(1) c(1) by (simp add: prepare_def pheno_def G_def a(3) m_def)
  have shapes: "shape0 (m_Y m) = length (m_order m)" "shape1 (m_Y m) = 1"
    "shape0 (m_G m) = length (m_order m)" "shape1 (m_G m) = length (m_SNP_indices m)"
    "shape0 (m_K m) = length (m_order m)" "shape1 (m_K m) = length (m_order m)"
    using len_pa len_gi len_ki v(3,4) c(3,4)
    by (simp_all add: m_def a(2) a(6) to_numpy_def Gm_def)
  show ?thesis
  proof (intro exI[of _ m] conjI)
    show "prepare thr src = Inr m" by (fact run)
    show "m_order m =
        filter (\<lambda>a. a \<in> fst ` set (dropna (pheno_table src))) (geno_accessions src)"
      by (simp add: m_def a(2) order_def pheno_def G_def)
    show "map (\<lambda>i. geno_accessions src ! i) (m_geno_indices m) = m_order m"
      using gi_order by (simp add: m_def a(2) a(3) G_def)
    show "map (\<lambda>i. kin_accessions src ! i) (m_kin_indices m) = m_order m"
      using ki_order by (simp add: m_def a(2))
    show "\<forall>i<length (m_order m).
        (m_order m ! i, entry (m_Y m) i 0) \<in> set (dropna (pheno_table src))"
      using entY by (simp add: m_def a(2) pheno_def)
    show "\<forall>i<length (m_order m). \<forall>j<length (m_SNP_indices m).
        entry (m_G m) i j = entry (geno_snps src) (m_SNP_indices m ! j) (m_geno_indices m ! i)"
      using entG by (simp add: m_def a(2) a(3))
    show "\<forall>i<length (m_order m). \<forall>j<length (m_order m).
        entry (m_K m) i j = entry (kin_kinship src) (m_kin_indices m ! i) (m_kin_indices m ! j)"
      using c(5) len_ki by (simp add: m_def a(2))
  qed (fact shapes)+
qed

theorem aligned_triple_when_orders_agree_witness:
  "distinct (map fst (dropna (pheno_table example_sources))) \<and>
   distinct (geno_accessions example_sources) \<and> distinct (kin_accessions example_sources) \<and>
   well_shaped (geno_snps example_sources) \<and>
   map_sum id m_order (prepare MAF_thrs example_sources) = Inr [''B'', ''D''] \<and>
   map_sum id (\<lambda>m. map (\<lambda>i. kin_accessions example_sources ! i) (m_kin_indices m))
     (prepare MAF_thrs example_sources) = Inr [''B'', ''D''] \<and>
   map_sum id (\<lambda>m. map (\<lambda>i. geno_accessions example_sources ! i) (m_geno_indices m))
     (prepare MAF_thrs example_sources) = Inr [''B'', ''D'']"
proof -
  have dp: "distinct (map fst (dropna (pheno_table example_sources)))"
    by (simp add: example_sources_def dropna_def)
  have dg: "distinct (geno_accessions example_sources)"
    and dk: "distinct (kin_accessions example_sources)"
    by (simp_all add: example_sources_def)
  have ord: "filter (\<lambda>a. a \<in> fst ` set (dropna (pheno_table example_sources)) \<and>
        a \<in> set (geno_accessions example_sources)) (kin_accessions example_sources) =
      filter (\<lambda>a. a \<in> fst ` set (dropna (pheno_table example_sources)))
        (geno_accessions example_sources)"
    by (simp add: example_sources_def dropna_def)
  have snps: "well_shaped (geno_snps example_sources)"
    "shape1 (geno_snps example_sources) = length (geno_accessions example_sources)"
    by (simp_all add: example_sources_def well_shaped_def)
  have kin: "shape0 (kin_kinship example_sources) = length (kin_accessions example_sources)"
    "shape1 (kin_kinship example_sources) = length (kin_accessions example_sources)"
    by (simp_all add: example_sources_def)
  from aligned_triple_when_orders_agree[OF dp dg dk ord snps kin, of MAF_thrs] obtain m where
    m: "prepare MAF_thrs example_sources = Inr m"
      "map (\<lambda>i. geno_accessions example_sources ! i) (m_geno_indices m) = m_order m"
      "map (\<lambda>i. kin_accessions example_sources ! i) (m_kin_indices m) = m_order m"
    by (elim exE conjE) (rule that; assumption)
  from m(1) have "m_order m = [''B'', ''D'']" by (auto simp: prepare_example)
  with m dp dg dk snps(1) show ?thesis by simp
qed

end
